theory Spec2Isabelle
  imports Main "HOL-Library.Sublist"
begin

section \<open>Python values\<close>

text \<open>
  A Python \<open>str\<close> is a sequence of Unicode code points, so a string is a list of code
  point numbers and every index, length and slice counts whole code points.  Literals of
  the source are written with \<open>S\<close>.
\<close>

type_synonym pystr = "nat list"

definition S :: "string \<Rightarrow> pystr" where
  "S s = map of_char s"

text \<open>The character U+2026 that \<open>_truncate\<close> appends.\<close>

definition ellipsis :: nat where
  "ellipsis = 8230"

text \<open>
  The values that events, states and payloads hold: the JSON-like values, tuples and
  sets, and objects of any other class (\<open>PObj\<close>: class name, attributes and the
  result of \<open>str()\<close>; such objects are truthy).  A \<open>dict\<close> keeps its insertion order;
  lookup takes the first entry of a key.
\<close>

datatype pyval = PNone | PBool bool | PInt int | PStr pystr
  | PList "pyval list" | PTuple "pyval list" | PSet "pyval list"
  | PDict "(pystr \<times> pyval) list"
  | PObj pystr "(pystr \<times> pyval) list" pystr

type_synonym pydict = "(pystr \<times> pyval) list"

text \<open>Exceptions, each with the text that \<open>str(e)\<close> gives.\<close>

datatype pyexc = AttributeError pystr | TypeError pystr | UnboundLocalError pystr
  | AssertionError pystr | OSError pystr | KeyError pystr | RuntimeError pystr

fun exc_str :: "pyexc \<Rightarrow> pystr" where
  "exc_str (AttributeError m) = m"
| "exc_str (TypeError m) = m"
| "exc_str (UnboundLocalError m) = m"
| "exc_str (AssertionError m) = m"
| "exc_str (OSError m) = m"
| "exc_str (KeyError m) = m"
| "exc_str (RuntimeError m) = m"

fun is_OSError :: "pyexc \<Rightarrow> bool" where
  "is_OSError (OSError m) = True"
| "is_OSError e = False"

text \<open>
  What the interpreter and the operating system supply: \<open>str.lower\<close> (Unicode case
  mapping), \<open>repr\<close> of a container, \<open>os.path.exists\<close> and \<open>os.path.getsize\<close>.
\<close>

record env =
  py_lower :: "pystr \<Rightarrow> pystr"
  py_repr :: "pyval \<Rightarrow> pystr"
  path_exists :: "pyval \<Rightarrow> pyexc + bool"
  path_getsize :: "pyval \<Rightarrow> pyexc + int"

fun truthy :: "pyval \<Rightarrow> bool" where
  "truthy PNone = False"
| "truthy (PBool b) = b"
| "truthy (PInt i) = (i \<noteq> 0)"
| "truthy (PStr s) = (s \<noteq> [])"
| "truthy (PList xs) = (xs \<noteq> [])"
| "truthy (PTuple xs) = (xs \<noteq> [])"
| "truthy (PSet xs) = (xs \<noteq> [])"
| "truthy (PDict kvs) = (kvs \<noteq> [])"
| "truthy (PObj c as r) = True"

definition py_or :: "pyval \<Rightarrow> pyval \<Rightarrow> pyval" where
  "py_or a b = (if truthy a then a else b)"

text \<open>\<open>d.get(k)\<close> and \<open>d.get(k, default)\<close>.\<close>

definition dget_default :: "pydict \<Rightarrow> pystr \<Rightarrow> pyval \<Rightarrow> pyval" where
  "dget_default d k dflt = (case map_of d k of Some v \<Rightarrow> v | None \<Rightarrow> dflt)"

definition dget :: "pydict \<Rightarrow> pystr \<Rightarrow> pyval" where
  "dget d k = dget_default d k PNone"

fun type_name :: "pyval \<Rightarrow> pystr" where
  "type_name PNone = S ''NoneType''"
| "type_name (PBool b) = S ''bool''"
| "type_name (PInt i) = S ''int''"
| "type_name (PStr s) = S ''str''"
| "type_name (PList xs) = S ''list''"
| "type_name (PTuple xs) = S ''tuple''"
| "type_name (PSet xs) = S ''set''"
| "type_name (PDict kvs) = S ''dict''"
| "type_name (PObj c as r) = c"

definition no_attribute :: "pyval \<Rightarrow> string \<Rightarrow> pyexc" where
  "no_attribute v a =
     AttributeError ([39] @ type_name v @ [39] @ S '' object has no attribute '' @ [39] @ S a @ [39])"

subsection \<open>Strings\<close>

fun digits :: "nat \<Rightarrow> pystr" where
  "digits n = (if n < 10 then [48 + n] else digits (n div 10) @ [48 + n mod 10])"

declare digits.simps [simp del]

definition show_int :: "int \<Rightarrow> pystr" where
  "show_int i = (if i < 0 then S ''-'' @ digits (nat (- i)) else digits (nat i))"

text \<open>\<open>str(v)\<close>.\<close>

fun py_str :: "env \<Rightarrow> pyval \<Rightarrow> pystr" where
  "py_str E PNone = S ''None''"
| "py_str E (PBool b) = (if b then S ''True'' else S ''False'')"
| "py_str E (PInt i) = show_int i"
| "py_str E (PStr s) = s"
| "py_str E (PObj c as r) = r"
| "py_str E v = py_repr E v"

text \<open>The code points for which \<open>str.isspace\<close> holds; \<open>strip\<close> and \<open>rstrip\<close> remove them.\<close>

definition py_isspace :: "nat \<Rightarrow> bool" where
  "py_isspace c \<longleftrightarrow>
     (9 \<le> c \<and> c \<le> 13) \<or> (28 \<le> c \<and> c \<le> 32) \<or> c = 133 \<or> c = 160 \<or> c = 5760 \<or>
     (8192 \<le> c \<and> c \<le> 8202) \<or> c = 8232 \<or> c = 8233 \<or> c = 8239 \<or> c = 8287 \<or> c = 12288"

definition rstrip :: "pystr \<Rightarrow> pystr" where
  "rstrip s = rev (dropWhile py_isspace (rev s))"

definition strip :: "pystr \<Rightarrow> pystr" where
  "strip s = rstrip (dropWhile py_isspace s)"

text \<open>\<open>s[:k]\<close>: a negative \<open>k\<close> counts from the end.\<close>

definition slice_to :: "int \<Rightarrow> 'a list \<Rightarrow> 'a list" where
  "slice_to k s = (if 0 \<le> k then take (nat k) s else take (nat (int (length s) + k)) s)"

text \<open>\<open>s.replace(a, b)\<close> for single characters \<open>a\<close>.\<close>

definition replace_char :: "nat \<Rightarrow> pystr \<Rightarrow> pystr \<Rightarrow> pystr" where
  "replace_char a b s = concat (map (\<lambda>c. if c = a then b else [c]) s)"

definition ascii_lower :: "pystr \<Rightarrow> pystr" where
  "ascii_lower s = map (\<lambda>c. if 65 \<le> c \<and> c \<le> 90 then c + 32 else c) s"

text \<open>An environment for concrete runs: ASCII text, no files.\<close>

definition ascii_env :: env where
  "ascii_env = \<lparr> py_lower = ascii_lower, py_repr = (\<lambda>v. S ''<container>''),
     path_exists = (\<lambda>p. Inr False), path_getsize = (\<lambda>p. Inl (OSError (S ''No such file''))) \<rparr>"

section \<open>The event formatter (event\_formatter.py)\<close>

text \<open>\<open>_truncate(text, limit)\<close>.\<close>

definition truncate_text :: "env \<Rightarrow> pyval \<Rightarrow> int \<Rightarrow> pystr" where
  "truncate_text E text limit =
     (if text = PNone then []
      else let text = py_str E text
           in if int (length text) \<le> limit then text
              else rstrip (slice_to (limit - 1) text) @ [ellipsis])"

text \<open>\<open>_safe_session(value)\<close>: \<open>(value or "").replace("-", "_")\<close>.\<close>

definition safe_session :: "pyval \<Rightarrow> pyexc + pystr" where
  "safe_session v =
     (case py_or v (PStr []) of
        PStr s \<Rightarrow> Inr (replace_char 45 [95] s)
      | w \<Rightarrow> Inl (no_attribute w ''replace''))"

text \<open>\<open>_extract_text(blob)\<close>.\<close>

function extract_text :: "env \<Rightarrow> pyval \<Rightarrow> pystr" where
  "extract_text E PNone = []"
| "extract_text E (PStr s) = s"
| "extract_text E (PDict kvs) =
     (case map_of kvs (S ''content'') of
        Some v \<Rightarrow> extract_text E v
      | None \<Rightarrow>
         (case map_of kvs (S ''text'') of
            Some v \<Rightarrow> extract_text E v
          | None \<Rightarrow>
             (case map_of kvs (S ''response'') of
                Some v \<Rightarrow> extract_text E v
              | None \<Rightarrow> concat (map (\<lambda>kv. extract_text E (snd kv)) kvs))))"
| "extract_text E (PList xs) = concat (map (extract_text E) xs)"
| "extract_text E (PTuple xs) = concat (map (extract_text E) xs)"
| "extract_text E (PObj c as r) =
     (case map_of as (S ''content'') of
        Some v \<Rightarrow> extract_text E v
      | None \<Rightarrow> r)"
| "extract_text E (PBool b) = py_str E (PBool b)"
| "extract_text E (PInt i) = py_str E (PInt i)"
| "extract_text E (PSet xs) = py_str E (PSet xs)"
  by pat_completeness auto
termination
proof (relation "measure (\<lambda>(E, v). size v)")
  have in_set: "size v < Suc (size_list (size_prod (\<lambda>x. 0) size) kvs)"
    if "(k, v) \<in> set kvs" for k :: pystr and v :: pyval and kvs
    using that by (induction kvs) auto
  have lookup: "size v < Suc (size_list (size_prod (\<lambda>x. 0) size) kvs)"
    if "map_of kvs k = Some v" for k :: pystr and v :: pyval and kvs
    using in_set [OF map_of_SomeD [OF that]] .
  have elem: "size x < Suc (size_list size xs)" if "x \<in> set xs" for x :: pyval and xs
    using that by (induction xs) auto
  show "wf (measure (\<lambda>(E, v). size v))"
    by simp
  show "((E, v), E, PDict kvs) \<in> measure (\<lambda>(E, v). size v)"
    if "map_of kvs (S ''content'') = Some v" for E kvs v
    using lookup [OF that] by simp
  show "((E, v), E, PDict kvs) \<in> measure (\<lambda>(E, v). size v)"
    if "map_of kvs (S ''text'') = Some v" for E kvs v
    using lookup [OF that] by simp
  show "((E, v), E, PDict kvs) \<in> measure (\<lambda>(E, v). size v)"
    if "map_of kvs (S ''response'') = Some v" for E kvs v
    using lookup [OF that] by simp
  show "((E, snd kv), E, PDict kvs) \<in> measure (\<lambda>(E, v). size v)"
    if "kv \<in> set kvs" for E kvs kv
    using in_set [of "fst kv" "snd kv" kvs] that by simp
  show "((E, x), E, PList xs) \<in> measure (\<lambda>(E, v). size v)" if "x \<in> set xs" for E xs x
    using elem [OF that] by simp
  show "((E, x), E, PTuple xs) \<in> measure (\<lambda>(E, v). size v)" if "x \<in> set xs" for E xs x
    using elem [OF that] by simp
  show "((E, v), E, PObj c as r) \<in> measure (\<lambda>(E, v). size v)"
    if "map_of as (S ''content'') = Some v" for E c as r v
    using lookup [OF that] by simp
qed

text \<open>\<open>_extract_count(value)\<close>: the length of a list, tuple, set or dict, else \<open>None\<close>.\<close>

fun extract_count :: "pyval \<Rightarrow> int option" where
  "extract_count (PList xs) = Some (int (length xs))"
| "extract_count (PTuple xs) = Some (int (length xs))"
| "extract_count (PSet xs) = Some (int (length xs))"
| "extract_count (PDict kvs) = Some (int (length kvs))"
| "extract_count v = None"

text \<open>\<open>_extract_count(value) or 0\<close>.\<close>

definition count_or_0 :: "pyval \<Rightarrow> int" where
  "count_or_0 v = (case extract_count v of Some n \<Rightarrow> n | None \<Rightarrow> 0)"

text \<open>\<open>d[k] = v\<close>: an existing key keeps its place.\<close>

fun dict_set :: "pydict \<Rightarrow> pystr \<Rightarrow> pyval \<Rightarrow> pydict" where
  "dict_set [] k v = [(k, v)]"
| "dict_set ((k', v') # d) k v = (if k' = k then (k, v) # d else (k', v') # dict_set d k v)"

text \<open>
  \<open>_build_stage_payload(node, message, **extra)\<close>: the extra fields that are not
  \<open>None\<close> are added in the order of the call.
\<close>

definition build_stage_payload :: "pystr \<Rightarrow> pystr \<Rightarrow> pydict \<Rightarrow> pydict" where
  "build_stage_payload node message extra =
     foldl (\<lambda>d (k, v). dict_set d k v)
       [(S ''type'', PStr (S ''stage'')), (S ''node'', PStr node), (S ''message'', PStr message)]
       (filter (\<lambda>(k, v). v \<noteq> PNone) extra)"

text \<open>\<open>"".join(items)\<close>: every item has to be a \<open>str\<close>.\<close>

fun join_strs :: "pyval list \<Rightarrow> pyexc + pystr" where
  "join_strs [] = Inr []"
| "join_strs (PStr s # vs) = (case join_strs vs of Inl e \<Rightarrow> Inl e | Inr t \<Rightarrow> Inr (s @ t))"
| "join_strs (v # vs) =
     Inl (TypeError (S ''sequence item: expected str instance, '' @ type_name v @ S '' found''))"

text \<open>\<open>_extract_token(data_section)\<close>.\<close>

definition token_part :: "env \<Rightarrow> pyval \<Rightarrow> pyval" where
  "token_part E part =
     (case part of PDict p \<Rightarrow> dget_default p (S ''text'') (PStr []) | _ \<Rightarrow> PStr (py_str E part))"

definition chunk_attrs :: "env \<Rightarrow> pyval \<Rightarrow> pyexc + pystr" where
  "chunk_attrs E chunk =
     (case chunk of
        PObj c as r \<Rightarrow>
          (case map_of as (S ''content'') of
             Some v \<Rightarrow> Inr (extract_text E v)
           | None \<Rightarrow>
              (case map_of as (S ''text'') of
                 Some v \<Rightarrow> Inr (py_str E v)
               | None \<Rightarrow> Inr (extract_text E chunk)))
      | _ \<Rightarrow> Inr (extract_text E chunk))"

definition extract_token :: "env \<Rightarrow> pyval \<Rightarrow> pyexc + pystr" where
  "extract_token E data_section =
     (case data_section of
        PDict d \<Rightarrow>
          (let chunk = py_or (dget d (S ''chunk'')) (dget d (S ''delta''))
           in case chunk of
                PNone \<Rightarrow> Inr []
              | PStr s \<Rightarrow> Inr s
              | PDict ch \<Rightarrow>
                  (case dget ch (S ''content'') of
                     PList parts \<Rightarrow> join_strs (map (token_part E) parts)
                   | PStr s \<Rightarrow> Inr s
                   | _ \<Rightarrow>
                      (case map_of ch (S ''text'') of
                         Some t \<Rightarrow> Inr (py_str E t)
                       | None \<Rightarrow> chunk_attrs E chunk))
              | _ \<Rightarrow> chunk_attrs E chunk)
      | _ \<Rightarrow> Inr [])"

text \<open>\<open>_maybe_get_state(data_section)\<close>.\<close>

definition maybe_get_state :: "pyval \<Rightarrow> pydict" where
  "maybe_get_state data_section =
     (case data_section of
        PDict d \<Rightarrow>
          (case dget d (S ''state'') of
             PDict st \<Rightarrow> st
           | _ \<Rightarrow>
              (case dget d (S ''new_state'') of
                 PDict st \<Rightarrow> st
               | _ \<Rightarrow>
                  (case dget d (S ''updated_state'') of
                     PDict st \<Rightarrow> st
                   | _ \<Rightarrow> [])))
      | _ \<Rightarrow> [])"

text \<open>The node output read by most branches: \<open>output_section.get(key)\<close> when the
  output is a dict, else \<open>None\<close>.\<close>

definition output_get :: "pyval \<Rightarrow> pystr \<Rightarrow> pyval" where
  "output_get output_section k = (case output_section of PDict out \<Rightarrow> dget out k | _ \<Rightarrow> PNone)"

definition error_payload :: "pyexc \<Rightarrow> pydict" where
  "error_payload e = [(S ''type'', PStr (S ''error'')), (S ''error'', PStr (exc_str e))]"

text \<open>\<open>x[:n]\<close> inside a \<open>print\<close>: the value has to support slicing.  A dict takes
  the slice as a key, which is refused as unhashable.\<close>

fun sliceable :: "pyval \<Rightarrow> bool" where
  "sliceable (PStr s) = True"
| "sliceable (PList xs) = True"
| "sliceable (PTuple xs) = True"
| "sliceable v = False"

definition not_subscriptable :: "pyval \<Rightarrow> pyexc" where
  "not_subscriptable v =
     (case v of
        PDict d \<Rightarrow> TypeError (S ''unhashable type: '' @ [39] @ S ''slice'' @ [39])
      | _ \<Rightarrow> TypeError ([39] @ type_name v @ [39] @ S '' object is not subscriptable''))"

text \<open>The branch of the input node.\<close>

definition format_input :: "env \<Rightarrow> pyval \<Rightarrow> pyval \<Rightarrow> pydict \<Rightarrow> pyexc + pydict list" where
  "format_input E ev_type output_section initial_state =
     (if ev_type = PStr (S ''on_chain_start'') then
        (case safe_session (dget initial_state (S ''session_id'')) of
           Inl e \<Rightarrow> Inl e
         | Inr session \<Rightarrow>
            Inr [build_stage_payload (S ''input'') (S ''Validating session & user input'' @ [ellipsis])
                  [(S ''session'', PStr session),
                   (S ''user_message'', PStr (truncate_text E (dget initial_state (S ''message'')) 120))]])
      else if ev_type = PStr (S ''on_chain_end'') then
        (let safe_id = output_get output_section (S ''safe_session_id'')
         in if \<not> truthy safe_id then
              (case safe_session (dget initial_state (S ''session_id'')) of
                 Inl e \<Rightarrow> Inl e
               | Inr session \<Rightarrow>
                  Inr [build_stage_payload (S ''input'') (S ''Session validated'')
                        [(S ''session'', PStr session)]])
            else Inr [build_stage_payload (S ''input'') (S ''Session validated'')
                        [(S ''session'', safe_id)]])
      else Inr [])"

text \<open>The value a retrieval or history branch reports: the output's field, else the
  state snapshot's when that snapshot is not empty.\<close>

definition output_or_state :: "pyval \<Rightarrow> pydict \<Rightarrow> pystr \<Rightarrow> pyval" where
  "output_or_state output_section state_snapshot k =
     (let v = output_get output_section k
      in if v = PNone \<and> state_snapshot \<noteq> [] then dget state_snapshot k else v)"

definition format_history :: "pyval \<Rightarrow> pydict \<Rightarrow> pydict list" where
  "format_history output_section state_snapshot =
     (let history = output_or_state output_section state_snapshot (S ''history'');
          count = count_or_0 history
      in [build_stage_payload (S ''history'')
            (S ''Fetched '' @ show_int count @ S '' messages from history'')
            [(S ''count'', PInt count)]])"

text \<open>The branch of the download node; its end event stats the temporary file.\<close>

definition format_doc_download ::
  "env \<Rightarrow> pyval \<Rightarrow> pyval \<Rightarrow> pydict \<Rightarrow> pydict \<Rightarrow> pyexc + pydict list" where
  "format_doc_download E ev_type output_section state_snapshot initial_state =
     (if ev_type = PStr (S ''on_chain_start'') then
        (let url = py_or (dget initial_state (S ''document_url'')) (dget state_snapshot (S ''document_url''))
         in if truthy url then
              Inr [build_stage_payload (S ''doc_download'')
                     (S ''Downloading document from URL '' @ truncate_text E url 100) []]
            else Inr [])
      else if ev_type = PStr (S ''on_chain_end'') then
        (let tmp0 = output_get output_section (S ''tmp_file_path'');
             tmp_path = (if \<not> truthy tmp0 \<and> state_snapshot \<noteq> []
                         then dget state_snapshot (S ''tmp_file_path'') else tmp0);
             temp_path = (if truthy tmp_path then PStr (truncate_text E tmp_path 80) else PNone);
             payload = (\<lambda>size_bytes. build_stage_payload (S ''doc_download'') (S ''Document downloaded'')
                          [(S ''bytes'', size_bytes), (S ''temp_path'', temp_path)])
         in if truthy tmp_path then
              (case path_exists E tmp_path of
                 Inl e \<Rightarrow> Inl e
               | Inr False \<Rightarrow> Inr [payload PNone]
               | Inr True \<Rightarrow>
                  (case path_getsize E tmp_path of
                     Inr n \<Rightarrow> Inr [payload (PInt n)]
                   | Inl e \<Rightarrow> if is_OSError e then Inr [payload PNone] else Inl e))
            else Inr [payload PNone])
      else Inr [])"

definition format_doc_process :: "pyval \<Rightarrow> pydict list" where
  "format_doc_process ev_type =
     (if ev_type = PStr (S ''on_chain_start'') then
        [build_stage_payload (S ''doc_process'') (S ''Processing downloaded document'' @ [ellipsis]) []]
      else if ev_type = PStr (S ''on_chain_end'') then
        [build_stage_payload (S ''doc_process'') (S ''Document chunks prepared for retrieval'') []]
      else [])"

text \<open>The two retrieval branches differ in the node, the field and the noun only.\<close>

definition format_retriever ::
  "env \<Rightarrow> string \<Rightarrow> string \<Rightarrow> string \<Rightarrow> pyval \<Rightarrow> pydict \<Rightarrow> pydict list" where
  "format_retriever E node field noun output_section state_snapshot =
     (let chunks = output_or_state output_section state_snapshot (S field);
          count = count_or_0 chunks;
          sample = (case chunks of
                      PList xs \<Rightarrow>
                        PStr (truncate_text E (case xs of [] \<Rightarrow> PStr [] | x # _ \<Rightarrow> x) 160)
                    | _ \<Rightarrow> PNone)
      in [build_stage_payload (S node)
            (S ''Retrieved '' @ show_int count @ S '' '' @ S noun @ S '' chunks'')
            [(S ''count'', PInt count), (S ''sample'', sample)]])"

definition format_context_combine :: "env \<Rightarrow> pyval \<Rightarrow> pydict \<Rightarrow> pydict list" where
  "format_context_combine E output_section state_snapshot =
     (let fm0 = output_get output_section (S ''full_user_message'');
          full_message = (if \<not> truthy fm0 \<and> state_snapshot \<noteq> []
                          then dget state_snapshot (S ''full_user_message'') else fm0)
      in [build_stage_payload (S ''context_combine'') (S ''Combining policy and document context'')
            [(S ''preview'', if truthy full_message then PStr (truncate_text E full_message 200) else PNone)]])"

text \<open>The branch of the output node's end event.\<close>

definition format_output :: "env \<Rightarrow> pystr \<Rightarrow> pyval \<Rightarrow> pyval \<Rightarrow> pyexc + pydict list" where
  "format_output E node_name output_section data_section =
     (let t1 = (case output_section of
                  PDict out \<Rightarrow>
                    (let t = PStr (extract_text E (py_or (dget out (S ''content'')) output_section))
                     in if \<not> truthy t then dget_default out (S ''response'') (PStr []) else t)
                | _ \<Rightarrow> PStr []);
          final_text = (if \<not> truthy t1 then PStr (extract_text E data_section) else t1)
      in if sliceable final_text then
           Inr [[(S ''type'', PStr (S ''final'')), (S ''node'', PStr node_name),
                 (S ''content'', final_text)]]
         else Inl (not_subscriptable final_text))"

text \<open>
  The body of the \<open>try\<close> block of \<open>format_event_for_ui\<close> from the dispatch on: the
  payloads, or the exception that leaves the block.
\<close>

definition format_dispatch ::
  "env \<Rightarrow> pystr \<Rightarrow> pyval \<Rightarrow> pyval \<Rightarrow> pydict \<Rightarrow> pyexc + pydict list" where
  "format_dispatch E node_name ev_type data_section initial_state =
     (let state_snapshot = maybe_get_state data_section;
          output_section = (case data_section of PDict d \<Rightarrow> dget d (S ''output'') | _ \<Rightarrow> PNone)
      in if ev_type = PStr (S ''on_chat_model_stream'') then
           (case extract_token E data_section of
              Inl e \<Rightarrow> Inl e
            | Inr token \<Rightarrow>
               Inr (if token \<noteq> [] then
                      [[(S ''type'', PStr (S ''llm_stream'')), (S ''node'', PStr node_name),
                        (S ''content'', PStr token)]]
                    else []))
         else if ev_type = PStr (S ''on_chat_model_end'') then
           (let final_text = extract_text E (py_or output_section data_section)
            in Inr (if final_text \<noteq> [] then
                      [[(S ''type'', PStr (S ''llm_final'')), (S ''node'', PStr node_name),
                        (S ''content'', PStr final_text)]]
                    else []))
         else if node_name \<in> {S ''input'', S ''input_node''} then
           format_input E ev_type output_section initial_state
         else if node_name \<in> {S ''history'', S ''session_history_node''}
                 \<and> ev_type = PStr (S ''on_chain_end'') then
           Inr (format_history output_section state_snapshot)
         else if node_name \<in> {S ''doc_download'', S ''document_download_node''} then
           format_doc_download E ev_type output_section state_snapshot initial_state
         else if node_name \<in> {S ''doc_process'', S ''document_processing_node''} then
           Inr (format_doc_process ev_type)
         else if node_name \<in> {S ''policy_retriever'', S ''policy_retriever_node''}
                 \<and> ev_type = PStr (S ''on_chain_end'') then
           Inr (format_retriever E ''policy_retriever'' ''policy_context'' ''policy''
                  output_section state_snapshot)
         else if node_name \<in> {S ''doc_retriever'', S ''document_retriever_node''}
                 \<and> ev_type = PStr (S ''on_chain_end'') then
           Inr (format_retriever E ''doc_retriever'' ''doc_context'' ''document''
                  output_section state_snapshot)
         else if node_name \<in> {S ''context_combine'', S ''context_combination_node''}
                 \<and> ev_type = PStr (S ''on_chain_end'') then
           Inr (format_context_combine E output_section state_snapshot)
         else if node_name \<in> {S ''llm'', S ''llm_node''} \<and> ev_type = PStr (S ''on_chain_start'') then
           Inr [build_stage_payload (S ''llm'') (S ''Generating response with LLM'' @ [ellipsis]) []]
         else if node_name \<in> {S ''session_update'', S ''session_update_node''}
                 \<and> ev_type = PStr (S ''on_chain_end'') then
           Inr [build_stage_payload (S ''session_update'') (S ''Appending messages to session history'') []]
         else if node_name \<in> {S ''output'', S ''output_node''} \<and> ev_type = PStr (S ''on_chain_end'') then
           format_output E node_name output_section data_section
         else if ev_type \<in> {PStr (S ''on_chain_start''), PStr (S ''on_chain_end'')} \<and> node_name \<noteq> [] then
           (let verb = (if ev_type = PStr (S ''on_chain_start'') then S ''Starting'' else S ''Finished'')
            in Inr [build_stage_payload node_name
                      (verb @ S '' node '' @ [39] @ node_name @ [39]) []])
         else Inr [])"

text \<open>
  \<open>format_event_for_ui(event, initial_state)\<close>.  The \<open>try\<close> block binds \<open>node_name\<close>
  first, with \<open>(event.get("name") or "").lower()\<close>, then \<open>ev_type\<close> and the data
  section, and dispatches; the handler replaces the payloads by one error payload.  The
  \<open>print\<close> after the handler reads \<open>ev_type\<close> and \<open>node_name\<close>: when the first
  statement of the block raised, neither is bound and the function raises
  \<open>UnboundLocalError\<close>.
\<close>

definition format_event_for_ui :: "env \<Rightarrow> pydict \<Rightarrow> pydict \<Rightarrow> pyexc + pydict list" where
  "format_event_for_ui E event initial_state =
     (case py_or (dget event (S ''name'')) (PStr []) of
        PStr name \<Rightarrow>
          (let node_name = py_lower E name;
               ev_type = dget event (S ''event'');
               data_section = py_or (dget event (S ''data'')) (PDict [])
           in case format_dispatch E node_name ev_type data_section initial_state of
                Inl e \<Rightarrow> Inr [error_payload e]
              | Inr payloads \<Rightarrow> Inr payloads)
      | v \<Rightarrow>
          Inl (UnboundLocalError
                 (S ''cannot access local variable '' @ [39] @ S ''ev_type'' @ [39]
                  @ S '' where it is not associated with a value'')))"

text \<open>The types of the payloads that the formatter builds.\<close>

definition ui_types :: "pyval set" where
  "ui_types = {PStr (S ''stage''), PStr (S ''llm_stream''), PStr (S ''llm_final''),
               PStr (S ''final''), PStr (S ''error'')}"

text \<open>\<open>json.dumps\<close> accepts the JSON-like values (a tuple is written as a list) and
  raises \<open>TypeError\<close> on a set or an object of another class.\<close>

fun json_ok :: "pyval \<Rightarrow> bool" where
  "json_ok (PList xs) = list_all json_ok xs"
| "json_ok (PTuple xs) = list_all json_ok xs"
| "json_ok (PDict kvs) = list_all (\<lambda>kv. json_ok (snd kv)) kvs"
| "json_ok (PSet xs) = False"
| "json_ok (PObj c as r) = False"
| "json_ok v = True"

text \<open>
  \<open>json.dumps(v)\<close>: the text is not modelled; the value stands for its JSON text, and
  the line \<open>data: <json>\<close> with its blank line is the frame \<open>Data v\<close>.
\<close>

definition json_dumps :: "pyval \<Rightarrow> pyexc + pyval" where
  "json_dumps v =
     (if json_ok v then Inr v
      else Inl (TypeError (S ''Object of type '' @ type_name v @ S '' is not JSON serializable'')))"

datatype frame = Data pyval

text \<open>\<open>serialize_payload_for_sse(payload)\<close>; \<open>"\\n"\<close> is a backslash and an \<open>n\<close>.\<close>

definition safe_payload :: "env \<Rightarrow> pydict \<Rightarrow> pyval" where
  "safe_payload E payload =
     (let raw = replace_char 10 [92, 110] (take 200 (py_str E (PDict payload)))
      in PDict [(S ''type'', PStr (S ''event'')), (S ''raw'', PStr raw)])"

definition serialize_payload_for_sse :: "env \<Rightarrow> pydict \<Rightarrow> pyexc + frame" where
  "serialize_payload_for_sse E payload =
     (case json_dumps (PDict payload) of
        Inr j \<Rightarrow> Inr (Data j)
      | Inl e \<Rightarrow>
         (case json_dumps (safe_payload E payload) of
            Inr j \<Rightarrow> Inr (Data j)
          | Inl e' \<Rightarrow> Inl e'))"

section \<open>The producer (executor.py)\<close>

text \<open>
  The event stream of a run, as the producer sees it: the events it yields, and then
  either its normal end or the exception it raises.  The queue holds frames and, as
  the close sentinel, \<open>None\<close>.
\<close>

datatype stream_end = Completed | Raised pyexc

type_synonym queue = "frame option list"

text \<open>The inner loop over the payloads of one event, with its own handler.\<close>

fun put_payloads :: "env \<Rightarrow> pydict list \<Rightarrow> queue \<Rightarrow> queue" where
  "put_payloads E [] q = q"
| "put_payloads E (payload # payloads) q =
     put_payloads E payloads
       (case serialize_payload_for_sse E payload of
          Inr sse_line \<Rightarrow> q @ [Some sse_line]
        | Inl e \<Rightarrow> q @ [Some (Data (safe_payload E payload))])"

text \<open>The \<open>async for\<close> loop: the queue when the \<open>try\<close> block is left, and the
  exception that left it, if any.\<close>

fun producer_loop ::
  "env \<Rightarrow> pydict \<Rightarrow> pydict list \<Rightarrow> stream_end \<Rightarrow> queue \<Rightarrow> queue \<times> pyexc option" where
  "producer_loop E initial_state [] fin q =
     (q, case fin of Completed \<Rightarrow> None | Raised e \<Rightarrow> Some e)"
| "producer_loop E initial_state (event # events) fin q =
     (case format_event_for_ui E event initial_state of
        Inl e \<Rightarrow> (q, Some e)
      | Inr payloads \<Rightarrow> producer_loop E initial_state events fin (put_payloads E payloads q))"

definition end_frame :: frame where
  "end_frame = Data (PDict [(S ''type'', PStr (S ''end''))])"

definition error_frame :: "pyexc \<Rightarrow> frame" where
  "error_frame e = Data (PDict (error_payload e))"

text \<open>\<open>async_producer(graph, initial_state, queue)\<close> on an empty queue.\<close>

definition async_producer :: "env \<Rightarrow> pydict list \<times> stream_end \<Rightarrow> pydict \<Rightarrow> queue" where
  "async_producer E stream initial_state =
     (case producer_loop E initial_state (fst stream) (snd stream) [] of
        (q, None) \<Rightarrow> q @ [Some end_frame, None]
      | (q, Some e) \<Rightarrow> q @ [Some (error_frame e)] @ [Some end_frame, None])"

text \<open>The internal error of a run of the producer: the exception that left its \<open>try\<close>
  block, raised by the event stream or by the formatter.\<close>

definition producer_error :: "env \<Rightarrow> pydict list \<times> stream_end \<Rightarrow> pydict \<Rightarrow> pyexc option" where
  "producer_error E stream initial_state =
     snd (producer_loop E initial_state (fst stream) (snd stream) [])"

text \<open>The type of a frame: the \<open>type\<close> field of the object it carries.\<close>

definition frame_type :: "frame \<Rightarrow> pyval" where
  "frame_type f = (case f of Data (PDict d) \<Rightarrow> dget d (S ''type'') | Data v \<Rightarrow> PNone)"

text \<open>The loop at the end of \<open>create_stream_generator\<close>: it takes items from the queue
  and yields them until it meets the sentinel; the value is the list of the items it
  yields.  (On a queue that ends without the sentinel the loop would wait after the
  last of them; the queue of \<open>async_producer\<close> always ends with the sentinel.)\<close>

fun consume :: "queue \<Rightarrow> frame list" where
  "consume [] = []"
| "consume (None # q) = []"
| "consume (Some item # q) = item # consume q"

text \<open>
  \<open>create_stream_generator(graph, initial_state)\<close>, given the event stream of the graph:
  the frames it yields, or the exception it raises.  Before it creates the queue and
  starts the producer it prints \<open>initial_state.get('message', '')[:100]\<close>, which
  raises \<open>TypeError\<close> when the \<open>message\<close> key holds a value that cannot be sliced;
  then no frame is yielded.
\<close>

definition create_stream_generator ::
  "env \<Rightarrow> pydict list \<times> stream_end \<Rightarrow> pydict \<Rightarrow> pyexc + frame list" where
  "create_stream_generator E stream initial_state =
     (let message = dget_default initial_state (S ''message'') (PStr [])
      in if sliceable message then Inr (consume (async_producer E stream initial_state))
         else Inl (not_subscriptable message))"

section \<open>Intent classification (orchestrator.py)\<close>

definition policy_keywords :: "pystr list" where
  "policy_keywords = map S
     [''policy'', ''policies'', ''hr'', ''human resources'', ''vacation'', ''leave'', ''sick'', ''holiday'',
      ''dress code'', ''attendance'', ''remote work'', ''work from home'', ''benefits'', ''insurance'',
      ''harassment'', ''discrimination'', ''complaint'', ''procedure'', ''handbook'', ''employee'',
      ''employment'', ''contract'', ''agreement'', ''disciplinary'', ''termination'', ''salary'',
      ''pay'', ''compensation'', ''bonus'', ''raise'', ''promotion'', ''performance'', ''training'',
      ''development'', ''onboarding'', ''orientation'', ''safety'', ''security'', ''compliance'',
      ''regulation'', ''legal'', ''law'', ''rights'', ''responsibilities'', ''workplace'', ''office'',
      ''company'', ''organization'', ''corporate'', ''business'', ''work'', ''job'', ''career'']"

definition casual_keywords :: "pystr list" where
  "casual_keywords = map S
     [''hello'', ''hi'', ''hey'', ''good morning'', ''good afternoon'', ''good evening'',
      ''how are you'', ''what's up'', ''thanks'', ''thank you'', ''bye'', ''goodbye'',
      ''see you'', ''have a good'', ''nice to meet'', ''pleasure'', ''welcome'']"

definition capability_keywords :: "pystr list" where
  "capability_keywords = map S
     [''what can you'', ''what do you'', ''how can you'', ''what are you'', ''help me'',
      ''assist'', ''support'', ''capabilities'', ''features'', ''functions'', ''do for'']"

definition history_keywords :: "pystr list" where
  "history_keywords = map S
     [''previous'', ''before'', ''earlier'', ''last time'', ''conversation'', ''chat'',
      ''history'', ''asked'', ''questions'', ''messages'', ''what did i'', ''what was'',
      ''recall'', ''remember'', ''past'', ''earlier'', ''ago'']"

text \<open>\<open>sum(1 for keyword in keywords if keyword in message_lower)\<close>.\<close>

definition matches :: "pystr list \<Rightarrow> pystr \<Rightarrow> nat" where
  "matches keywords message_lower = length (filter (\<lambda>keyword. sublist keyword message_lower) keywords)"

text \<open>\<open>_rule_based_classification(message)\<close>; \<open>None\<close> sends the message to the LLM.\<close>

definition rule_based_classification :: "env \<Rightarrow> pystr \<Rightarrow> pystr option" where
  "rule_based_classification E message =
     (let message_lower = strip (py_lower E message)
      in if matches policy_keywords message_lower > 0 then Some (S ''company_policy'')
         else if matches casual_keywords message_lower > 0 then Some (S ''general'')
         else if matches capability_keywords message_lower > 0 then Some (S ''general'')
         else if matches history_keywords message_lower > 0 then Some (S ''general'')
         else None)"

text \<open>
  \<open>_llm_classification\<close>, given the outcome of \<open>self.llm.invoke\<close>: the response object
  or the exception.  Reading the history before the call cannot raise
  (\<open>get_session_history\<close> catches every exception).  \<open>response.content.strip().lower()\<close>
  needs a \<open>content\<close> attribute that is a string.
\<close>

definition response_intent :: "env \<Rightarrow> pyval \<Rightarrow> pyexc + pystr" where
  "response_intent E response =
     (case response of
        PObj c as r \<Rightarrow>
          (case map_of as (S ''content'') of
             Some (PStr s) \<Rightarrow> Inr (py_lower E (strip s))
           | Some v \<Rightarrow> Inl (no_attribute v ''strip'')
           | None \<Rightarrow> Inl (no_attribute response ''content''))
      | v \<Rightarrow> Inl (no_attribute v ''content''))"

definition llm_classification :: "env \<Rightarrow> pyexc + pyval \<Rightarrow> pystr" where
  "llm_classification E invoke_result =
     (case invoke_result of
        Inl e \<Rightarrow> S ''general''
      | Inr response \<Rightarrow>
         (case response_intent E response of
            Inl e \<Rightarrow> S ''general''
          | Inr intent \<Rightarrow>
             (if intent \<notin> {S ''company_policy'', S ''general''} then S ''general'' else intent)))"

text \<open>\<open>classify_intent\<close>: the rules first, the LLM when they give no label.\<close>

definition classify_intent :: "env \<Rightarrow> pystr \<Rightarrow> pyexc + pyval \<Rightarrow> pystr" where
  "classify_intent E message invoke_result =
     (case rule_based_classification E message of
        Some intent \<Rightarrow> intent
      | None \<Rightarrow> llm_classification E invoke_result)"

section \<open>The company-policy graph (graph.py)\<close>

text \<open>\<open>input_node(state)\<close>: the three assertions, then the safe session id.\<close>

definition input_node :: "pydict \<Rightarrow> pyexc + pydict" where
  "input_node state =
     (if \<not> truthy (dget state (S ''session_id'')) then Inl (AssertionError (S ''session_id required''))
      else if \<not> truthy (dget state (S ''message'')) then Inl (AssertionError (S ''message required''))
      else if \<not> truthy (dget state (S ''user_id'')) then Inl (AssertionError (S ''user_id required''))
      else (case dget state (S ''session_id'') of
              PStr s \<Rightarrow> Inr [(S ''safe_session_id'', PStr (replace_char 45 [95] s))]
            | v \<Rightarrow> Inl (no_attribute v ''replace'')))"

text \<open>
  What a run meets outside the graph: the session history that the orchestrator
  returns to the history node (or the exception of asking for it, or of the two
  prints that take its length and list its members), the row that
  \<open>SELECT to_regclass(name)\<close> gives (or the exception of the connection, the query
  or the fetch) at each of the two routing decisions, and the bodies of the nodes that
  call the retrievers, the document processor and the LLM.
\<close>

datatype node = Input | History | Doc_download | Doc_process | Policy_retriever
  | Doc_retriever | Context_combine | Llm | Session_update | Output

record world =
  get_history :: "pydict \<Rightarrow> pyexc + pyval"
  regclass_after_history :: "pystr \<Rightarrow> pyexc + pyval"
  regclass_after_policy :: "pystr \<Rightarrow> pyexc + pyval"
  node_body :: "node \<Rightarrow> pydict \<Rightarrow> pyexc + pydict"

text \<open>\<open>session_history_node(state)\<close>: reads \<open>state['session_id']\<close>, asks
  \<open>get_history_from_orchestrator\<close> for the history and returns the history alone.\<close>

definition session_history_node :: "world \<Rightarrow> pydict \<Rightarrow> pyexc + pydict" where
  "session_history_node W state =
     (case map_of state (S ''session_id'') of
        None \<Rightarrow> Inl (KeyError ([39] @ S ''session_id'' @ [39]))
      | Some sid \<Rightarrow>
         (case get_history W state of
            Inl e \<Rightarrow> Inl e
          | Inr history \<Rightarrow> Inr [(S ''history'', history)]))"

text \<open>
  The \<open>try\<close> block of both routers: with a truthy safe session id, query the table
  \<open>public.temp_documents_<id>\<close> and take \<open>bool(exists_row and exists_row[0])\<close>; any
  exception leaves \<open>has_temp\<close> false.
\<close>

definition temp_table :: "env \<Rightarrow> pyval \<Rightarrow> pystr" where
  "temp_table E safe_session_id = S ''public.temp_documents_'' @ py_str E safe_session_id"

fun row_exists :: "pyval \<Rightarrow> bool" where
  "row_exists (PTuple (x # xs)) = truthy x"
| "row_exists (PList (x # xs)) = truthy x"
| "row_exists (PStr (c # cs)) = True"
| "row_exists v = False"

definition has_temp :: "env \<Rightarrow> (pystr \<Rightarrow> pyexc + pyval) \<Rightarrow> pyval \<Rightarrow> bool" where
  "has_temp E regclass safe_session_id =
     (if truthy safe_session_id then
        (case regclass (temp_table E safe_session_id) of
           Inl e \<Rightarrow> False
         | Inr exists_row \<Rightarrow> row_exists exists_row)
      else False)"

definition route_after_history :: "env \<Rightarrow> (pystr \<Rightarrow> pyexc + pyval) \<Rightarrow> pydict \<Rightarrow> pystr" where
  "route_after_history E regclass state =
     (let safe_session_id = dget state (S ''safe_session_id'');
          document_url = dget state (S ''document_url'')
      in if has_temp E regclass safe_session_id then S ''has_doc''
         else if truthy document_url then S ''with_doc''
         else S ''no_doc'')"

definition route_after_policy :: "env \<Rightarrow> (pystr \<Rightarrow> pyexc + pyval) \<Rightarrow> pydict \<Rightarrow> pystr" where
  "route_after_policy E regclass state =
     (let safe_session_id = dget state (S ''safe_session_id'')
      in if has_temp E regclass safe_session_id then S ''need_doc'' else S ''no_doc_needed'')"

text \<open>\<open>build_company_policy_graph\<close>: the names of the nodes, their functions and the
  edges.\<close>

fun node_name :: "node \<Rightarrow> pystr" where
  "node_name Input = S ''input''"
| "node_name History = S ''history''"
| "node_name Doc_download = S ''doc_download''"
| "node_name Doc_process = S ''doc_process''"
| "node_name Policy_retriever = S ''policy_retriever''"
| "node_name Doc_retriever = S ''doc_retriever''"
| "node_name Context_combine = S ''context_combine''"
| "node_name Llm = S ''llm''"
| "node_name Session_update = S ''session_update''"
| "node_name Output = S ''output''"

definition node_fn :: "world \<Rightarrow> node \<Rightarrow> pydict \<Rightarrow> pyexc + pydict" where
  "node_fn W n state =
     (case n of
        Input \<Rightarrow> input_node state
      | History \<Rightarrow> session_history_node W state
      | _ \<Rightarrow> node_body W n state)"

definition after_history_targets :: "(pystr \<times> node) list" where
  "after_history_targets =
     [(S ''with_doc'', Doc_download), (S ''has_doc'', Policy_retriever), (S ''no_doc'', Policy_retriever)]"

definition after_policy_targets :: "(pystr \<times> node) list" where
  "after_policy_targets = [(S ''need_doc'', Doc_retriever), (S ''no_doc_needed'', Context_combine)]"

text \<open>The successor of a node in a state: a node, the end of the graph, or no declared
  target for the router's label.\<close>

datatype successor = Goto node | END | Undeclared pystr

definition conditional :: "(pystr \<times> node) list \<Rightarrow> pystr \<Rightarrow> successor" where
  "conditional targets label = (case map_of targets label of Some n \<Rightarrow> Goto n | None \<Rightarrow> Undeclared label)"

fun next_node :: "env \<Rightarrow> world \<Rightarrow> node \<Rightarrow> pydict \<Rightarrow> successor" where
  "next_node E W Input state = Goto History"
| "next_node E W History state =
     conditional after_history_targets (route_after_history E (regclass_after_history W) state)"
| "next_node E W Doc_download state = Goto Doc_process"
| "next_node E W Doc_process state = Goto Policy_retriever"
| "next_node E W Policy_retriever state =
     conditional after_policy_targets (route_after_policy E (regclass_after_policy W) state)"
| "next_node E W Doc_retriever state = Goto Context_combine"
| "next_node E W Context_combine state = Goto Llm"
| "next_node E W Llm state = Goto Session_update"
| "next_node E W Session_update state = Goto Output"
| "next_node E W Output state = END"

section \<open>The graph runtime\<close>

text \<open>
  Modelled from the spec: the Graph Runtime that executes a graph definition and
  produces the raw execution events (LangGraph's \<open>astream_events\<close>, not part of the
  source tree).  Nodes run one at a time along the single path that the edges select,
  each conditional edge evaluated on the state right after its predecessor has
  completed; the update a node returns is merged into the state; a node's start event
  precedes its end event; a node that raises aborts the rest of the path and the
  stream raises.
\<close>

datatype raw_event = Start node pydict | End node pydict

definition merge :: "pydict \<Rightarrow> pydict \<Rightarrow> pydict" where
  "merge state update = foldl (\<lambda>d (k, v). dict_set d k v) state update"

fun rank :: "node \<Rightarrow> nat" where
  "rank Input = 0"
| "rank History = 1"
| "rank Doc_download = 2"
| "rank Doc_process = 3"
| "rank Policy_retriever = 4"
| "rank Doc_retriever = 5"
| "rank Context_combine = 6"
| "rank Llm = 7"
| "rank Session_update = 8"
| "rank Output = 9"

function run_from :: "env \<Rightarrow> world \<Rightarrow> node \<Rightarrow> pydict \<Rightarrow> raw_event list \<times> stream_end" where
  "run_from E W n state =
     (case node_fn W n state of
        Inl e \<Rightarrow> ([Start n state], Raised e)
      | Inr update \<Rightarrow>
         (case next_node E W n (merge state update) of
            END \<Rightarrow> ([Start n state, End n update], Completed)
          | Undeclared label \<Rightarrow> ([Start n state, End n update], Raised (KeyError label))
          | Goto n' \<Rightarrow>
             (case run_from E W n' (merge state update) of
                (events, fin) \<Rightarrow> (Start n state # End n update # events, fin))))"
  by pat_completeness auto
termination
proof (relation "measure (\<lambda>(E, W, n, state). 10 - rank n)")
  show "wf (measure (\<lambda>(E, W, n, state). 10 - rank n))"
    by simp
  show "((E, W, n', merge state update), E, W, n, state) \<in> measure (\<lambda>(E, W, n, state). 10 - rank n)"
    if "next_node E W n (merge state update) = Goto n'" for E W n state update n'
    using that
    by (cases n)
      (auto simp: conditional_def after_history_targets_def after_policy_targets_def
         route_after_history_def route_after_policy_def Let_def split: if_splits)
qed

declare run_from.simps [simp del]

text \<open>The event dict of a raw event, and the run of the graph from its start node.\<close>

fun to_event :: "raw_event \<Rightarrow> pydict" where
  "to_event (Start n state) =
     [(S ''event'', PStr (S ''on_chain_start'')), (S ''name'', PStr (node_name n)),
      (S ''data'', PDict [(S ''input'', PDict state)])]"
| "to_event (End n update) =
     [(S ''event'', PStr (S ''on_chain_end'')), (S ''name'', PStr (node_name n)),
      (S ''data'', PDict [(S ''output'', PDict update)])]"

definition astream_events :: "env \<Rightarrow> world \<Rightarrow> pydict \<Rightarrow> pydict list \<times> stream_end" where
  "astream_events E W initial_state =
     (case run_from E W Input initial_state of (raw, fin) \<Rightarrow> (map to_event raw, fin))"

fun raw_node :: "raw_event \<Rightarrow> node" where
  "raw_node (Start n state) = n"
| "raw_node (End n update) = n"

fun started :: "raw_event \<Rightarrow> node option" where
  "started (Start n state) = Some n"
| "started (End n update) = None"

text \<open>The nodes a run executes, in order.\<close>

definition executed :: "env \<Rightarrow> world \<Rightarrow> pydict \<Rightarrow> node list" where
  "executed E W initial_state = List.map_filter started (fst (run_from E W Input initial_state))"

text \<open>What the consumer of a run receives from \<open>create_stream_generator\<close>: the frames
  before the close sentinel, or the exception of the generator.\<close>

definition stream_frames :: "env \<Rightarrow> world \<Rightarrow> pydict \<Rightarrow> pyexc + frame list" where
  "stream_frames E W initial_state =
     create_stream_generator E (astream_events E W initial_state) initial_state"

text \<open>The node that a frame names, as the stage sequence of a stream lists them.\<close>

definition frame_node :: "frame \<Rightarrow> pyval" where
  "frame_node f = (case f of Data (PDict d) \<Rightarrow> dget d (S ''node'') | Data v \<Rightarrow> PNone)"

section \<open>The text of the final payload, in words\<close>






section \<open>Concrete environments\<close>

text \<open>An environment in which the \<open>repr\<close> of a container holds a line break, as that of a
  dict with an array value does.\<close>

definition multiline_env :: env where
  "multiline_env = ascii_env \<lparr> py_repr := (\<lambda>v. S ''{'data': array([[1],'' @ [10] @ S '' [2]])}'') \<rparr>"

text \<open>A world with an empty history, no temporary table, and later nodes that return
  no update.\<close>

definition quiet_world :: world where
  "quiet_world = \<lparr> get_history = (\<lambda>state. Inr (PList [])),
     regclass_after_history = (\<lambda>name. Inr (PTuple [PNone])),
     regclass_after_policy = (\<lambda>name. Inr (PTuple [PNone])),
     node_body = (\<lambda>n state. Inr []) \<rparr>"

text \<open>A world in which the temporary table of session \<open>s1\<close> exists, one in which the
  database cannot be reached, and a state after the history node with a document URL.\<close>

definition stored_world :: world where
  "stored_world = quiet_world \<lparr> regclass_after_history :=
     (\<lambda>name. if name = S ''public.temp_documents_s1''
              then Inr (PTuple [PStr (S ''temp_documents_s1'')]) else Inr (PTuple [PNone])) \<rparr>"

definition failing_db_world :: world where
  "failing_db_world = quiet_world \<lparr> regclass_after_history :=
     (\<lambda>name. Inl (RuntimeError (S ''connection refused''))) \<rparr>"

definition state_with_url :: pydict where
  "state_with_url =
     [(S ''session_id'', PStr (S ''s1'')), (S ''user_id'', PStr (S ''u1'')),
      (S ''message'', PStr (S ''Does this contract violate GDPR?'')),
      (S ''document_url'', PStr (S ''https://example.com/a.pdf'')),
      (S ''safe_session_id'', PStr (S ''s1'')), (S ''history'', PList [])]"







definition no_doc_state :: pydict where
  "no_doc_state =
     [(S ''session_id'', PStr (S ''a-b'')), (S ''message'', PStr (S ''What is our vacation policy?'')),
      (S ''document_url'', PNone), (S ''intent'', PStr (S ''company_policy'')),
      (S ''user_id'', PStr (S ''u1''))]"

section \<open>Properties\<close>

lemma S_eq_iff [simp]: "S a = S b \<longleftrightarrow> a = b"
  by (auto simp: S_def inj_on_def intro!: inj_onI dest!: map_inj_on[rotated])

lemma S_Nil [simp]: "S [] = []"
  by (simp add: S_def)

lemma S_eq_Nil [simp]: "S a = [] \<longleftrightarrow> a = []"
  by (simp add: S_def)

lemma length_rstrip: "length (rstrip s) \<le> length s"
  unfolding rstrip_def using length_dropWhile_le [of py_isspace "rev s"] by simp

lemma prefix_rstrip: "prefix (rstrip s) s"
proof -
  have "rev s = takeWhile py_isspace (rev s) @ dropWhile py_isspace (rev s)"
    by simp
  then have "s = rev (dropWhile py_isspace (rev s)) @ rev (takeWhile py_isspace (rev s))"
    by (metis rev_append rev_rev_ident)
  then show ?thesis
    unfolding rstrip_def prefix_def by blast
qed

text \<open>
  C3 (as the code has it).  A string no longer than the limit is returned unchanged.
  A longer one, for a limit of at least 1, is cut to its first \<open>limit - 1\<close> code points,
  loses the white space at the end of that cut, and gets exactly one ellipsis: the
  result is at most \<open>limit\<close> code points long, and what precedes the ellipsis is a
  prefix of the input made of whole code points.
\<close>

theorem truncate_spec:
  "(int (length s) \<le> N \<longrightarrow> truncate_text E (PStr s) N = s) \<and>
   (int (length s) > N \<and> 1 \<le> N \<longrightarrow>
      truncate_text E (PStr s) N = rstrip (take (nat (N - 1)) s) @ [ellipsis] \<and>
      int (length (truncate_text E (PStr s) N)) \<le> N \<and>
      prefix (butlast (truncate_text E (PStr s) N)) s \<and>
      last (truncate_text E (PStr s) N) = ellipsis)"
proof -
  have a: "prefix (rstrip (take (nat (N - 1)) s)) s"
    using prefix_rstrip [of "take (nat (N - 1)) s"] take_is_prefix [of "nat (N - 1)" s]
    by (rule prefix_order.trans)
  have b: "1 \<le> N \<Longrightarrow> int (length (rstrip (take (nat (N - 1)) s))) + 1 \<le> N"
    using length_rstrip [of "take (nat (N - 1)) s"] by (simp, linarith)
  show ?thesis
    using a b by (auto simp add: truncate_text_def slice_to_def Let_def)
qed

theorem truncate_spec_witness:
  "truncate_text ascii_env (PStr (S ''short'')) 10 = S ''short'' \<and>
   truncate_text ascii_env (PStr (S ''ab  efgh'')) 5 = S ''ab'' @ [ellipsis] \<and>
   int (length (truncate_text ascii_env (PStr (S ''ab  efgh'')) 5)) \<le> 5"
  using truncate_spec [of "S ''short''" 10 ascii_env]
    truncate_spec [of "S ''ab  efgh''" 5 ascii_env]
  by (simp add: S_def rstrip_def py_isspace_def)

theorem truncate_cut_counterexample:
  "int (length (S ''abcdef'')) > 3 \<and>
   truncate_text ascii_env (PStr (S ''abcdef'')) 3 \<noteq> take 3 (S ''abcdef'') @ [ellipsis] \<and>
   truncate_text ascii_env (PStr (S ''abcdef'')) 3 = S ''ab'' @ [ellipsis]"
  by (simp add: truncate_text_def slice_to_def S_def rstrip_def py_isspace_def)

subsection \<open>Intent classification\<close>

lemma matches_pos: "matches ks m > 0 \<longleftrightarrow> (\<exists>k\<in>set ks. sublist k m)"
  by (auto simp: matches_def filter_empty_conv)

text \<open>
  C4.  A message whose lower-cased, trimmed text contains a policy keyword is
  classified \<open>company_policy\<close> by the rules, whatever casual, capability or history
  keywords it also contains; a message that matches no keyword of the four sets gets no
  label from the rules.
\<close>

theorem rule_based_policy_first:
  "((\<exists>k\<in>set policy_keywords. sublist k (strip (py_lower E message))) \<longrightarrow>
      rule_based_classification E message = Some (S ''company_policy'')) \<and>
   ((\<forall>k\<in>set (policy_keywords @ casual_keywords @ capability_keywords @ history_keywords).
        \<not> sublist k (strip (py_lower E message))) \<longrightarrow>
      rule_based_classification E message = None)"
  by (auto simp: rule_based_classification_def Let_def matches_pos)

theorem rule_based_policy_first_witness:
  "(\<exists>k\<in>set policy_keywords.
      sublist k (strip (py_lower ascii_env (S '' Hello, thanks! What is our Vacation policy? '')))) \<and>
   (\<exists>k\<in>set casual_keywords.
      sublist k (strip (py_lower ascii_env (S '' Hello, thanks! What is our Vacation policy? '')))) \<and>
   rule_based_classification ascii_env (S '' Hello, thanks! What is our Vacation policy? '')
     = Some (S ''company_policy'') \<and>
   filter (\<lambda>k. sublist k (strip (py_lower ascii_env (S ''Tell me a joke''))))
     (policy_keywords @ casual_keywords @ capability_keywords @ history_keywords) = [] \<and>
   rule_based_classification ascii_env (S ''Tell me a joke'') = None"
proof -
  let ?m = "S '' Hello, thanks! What is our Vacation policy? ''"
  have norm: "strip (py_lower ascii_env ?m) = S ''hello, thanks! what is our vacation policy?''"
    by (simp add: ascii_env_def ascii_lower_def strip_def rstrip_def py_isspace_def S_def)
  have "sublist (S ''policy'') (S ''hello, thanks! what is our vacation policy?'')"
    unfolding sublist_def
    by (rule exI [of _ "S ''hello, thanks! what is our vacation ''"], rule exI [of _ "S ''?''"])
      (simp add: S_def)
  moreover have "S ''policy'' \<in> set policy_keywords"
    by (simp add: policy_keywords_def)
  ultimately have p: "\<exists>k\<in>set policy_keywords. sublist k (strip (py_lower ascii_env ?m))"
    unfolding norm by blast
  have "sublist (S ''hello'') (S ''hello, thanks! what is our vacation policy?'')"
    unfolding sublist_def
    by (rule exI [of _ "[]"], rule exI [of _ "S '', thanks! what is our vacation policy?''"])
      (simp add: S_def)
  moreover have "S ''hello'' \<in> set casual_keywords"
    by (simp add: casual_keywords_def)
  ultimately have c: "\<exists>k\<in>set casual_keywords. sublist k (strip (py_lower ascii_env ?m))"
    unfolding norm by blast
  have norm': "strip (py_lower ascii_env (S ''Tell me a joke'')) = S ''tell me a joke''"
    by (simp add: ascii_env_def ascii_lower_def strip_def rstrip_def py_isspace_def S_def)
  have n: "\<forall>k\<in>set (policy_keywords @ casual_keywords @ capability_keywords @ history_keywords).
      \<not> sublist k (strip (py_lower ascii_env (S ''Tell me a joke'')))"
    unfolding norm'
    by (simp add: policy_keywords_def casual_keywords_def capability_keywords_def
          history_keywords_def S_def sublist_code)
  show ?thesis
    using p c n rule_based_policy_first [of ascii_env ?m]
      rule_based_policy_first [of ascii_env "S ''Tell me a joke''"]
    unfolding filter_empty_conv by blast
qed

text \<open>
  C5.  The LLM fallback returns one of the two labels, and \<open>general\<close> whenever the call
  raises, the stripped and lower-cased answer is neither label, or the answer cannot be
  read as a string.
\<close>

theorem llm_classification_fail_safe:
  "llm_classification E invoke_result \<in> {S ''company_policy'', S ''general''} \<and>
   llm_classification E (Inl e) = S ''general'' \<and>
   (map_of as (S ''content'') = Some (PStr s) \<and>
    py_lower E (strip s) \<notin> {S ''company_policy'', S ''general''} \<longrightarrow>
      llm_classification E (Inr (PObj c as r)) = S ''general'') \<and>
   (response_intent E response = Inl e' \<longrightarrow> llm_classification E (Inr response) = S ''general'')"
  by (auto simp: llm_classification_def response_intent_def split: sum.splits)

theorem llm_classification_fail_safe_witness:
  "map_of [(S ''content'', PStr (S '' Policy question ''))] (S ''content'')
     = Some (PStr (S '' Policy question '')) \<and>
   py_lower ascii_env (strip (S '' Policy question '')) \<notin> {S ''company_policy'', S ''general''} \<and>
   llm_classification ascii_env
     (Inr (PObj (S ''AIMessage'') [(S ''content'', PStr (S '' Policy question ''))] [])) = S ''general'' \<and>
   response_intent ascii_env (PInt 7) = Inl (no_attribute (PInt 7) ''content'') \<and>
   llm_classification ascii_env (Inr (PInt 7)) = S ''general''"
proof -
  have a: "py_lower ascii_env (strip (S '' Policy question '')) = S ''policy question''"
    by (simp add: ascii_env_def ascii_lower_def strip_def rstrip_def py_isspace_def S_def)
  have b: "response_intent ascii_env (PInt 7) = Inl (no_attribute (PInt 7) ''content'')"
    by (simp add: response_intent_def)
  show ?thesis
    using llm_classification_fail_safe
      [of ascii_env "Inl (RuntimeError [])" "RuntimeError []"
        "[(S ''content'', PStr (S '' Policy question ''))]" "S '' Policy question ''"
        "S ''AIMessage''" "[]" "PInt 7" "no_attribute (PInt 7) ''content''"]
      b
    by (simp add: a)
qed

subsection \<open>Serialization\<close>

lemma json_dumps_safe_payload: "json_dumps (safe_payload E payload) = Inr (safe_payload E payload)"
  by (simp add: json_dumps_def safe_payload_def Let_def)

text \<open>
  C9 (as the code has it).  \<open>serialize_payload_for_sse\<close> always returns a frame.  When
  \<open>json.dumps\<close> raises on the payload, the frame is the fallback
  \<open>{"type": "event", "raw": raw}\<close>, where \<open>raw\<close> is the first 200 characters of
  \<open>str(payload)\<close> with every newline among them replaced by a backslash and an \<open>n\<close>;
  the producer queues that frame and goes on with the next payload.
\<close>

theorem serialize_fallback:
  "(\<exists>line. serialize_payload_for_sse E payload = Inr line) \<and>
   (json_dumps (PDict payload) = Inl e \<longrightarrow>
      serialize_payload_for_sse E payload =
        Inr (Data (PDict [(S ''type'', PStr (S ''event'')),
                          (S ''raw'', PStr (replace_char 10 [92, 110] (take 200 (py_str E (PDict payload)))))])) \<and>
      put_payloads E (payload # payloads) q =
        put_payloads E payloads
          (q @ [Some (Data (PDict [(S ''type'', PStr (S ''event'')),
                  (S ''raw'', PStr (replace_char 10 [92, 110] (take 200 (py_str E (PDict payload)))))]))]))"
proof -
  have "serialize_payload_for_sse E payload = Inr (Data (safe_payload E payload))"
    if "json_dumps (PDict payload) = Inl e"
    using that by (simp add: serialize_payload_for_sse_def json_dumps_safe_payload)
  moreover have "\<exists>line. serialize_payload_for_sse E payload = Inr line"
    by (cases "json_dumps (PDict payload)")
      (simp_all add: serialize_payload_for_sse_def json_dumps_safe_payload)
  ultimately show ?thesis
    by (simp add: safe_payload_def Let_def)
qed

theorem serialize_fallback_witness:
  "json_dumps (PDict [(S ''data'', PObj (S ''ndarray'') [] (S ''[[1] [2]]''))])
     = Inl (TypeError (S ''Object of type dict is not JSON serializable'')) \<and>
   serialize_payload_for_sse multiline_env [(S ''data'', PObj (S ''ndarray'') [] (S ''[[1] [2]]''))] =
     Inr (Data (PDict [(S ''type'', PStr (S ''event'')),
                       (S ''raw'', PStr (S ''{'data': array([[1],'' @ [92, 110] @ S '' [2]])}''))]))"
proof -
  let ?p = "[(S ''data'', PObj (S ''ndarray'') [] (S ''[[1] [2]]''))]"
  have a: "json_dumps (PDict ?p) = Inl (TypeError (S ''Object of type dict is not JSON serializable''))"
    by (simp add: json_dumps_def S_def)
  have b: "replace_char 10 [92, 110] (take 200 (py_str multiline_env (PDict ?p)))
             = S ''{'data': array([[1],'' @ [92, 110] @ S '' [2]])}''"
    by (simp add: multiline_env_def replace_char_def S_def)
  show ?thesis
    using serialize_fallback [of multiline_env ?p
        "TypeError (S ''Object of type dict is not JSON serializable'')"] a
    unfolding b by simp
qed

text \<open>The raw field is not always the cut string form itself: a line break in it is
  rewritten, and the field then differs from the first 200 characters of \<open>str(payload)\<close>.\<close>

theorem serialize_raw_counterexample:
  "json_dumps (PDict [(S ''data'', PObj (S ''ndarray'') [] (S ''[[1] [2]]''))])
     = Inl (TypeError (S ''Object of type dict is not JSON serializable'')) \<and>
   serialize_payload_for_sse multiline_env [(S ''data'', PObj (S ''ndarray'') [] (S ''[[1] [2]]''))] \<noteq>
     Inr (Data (PDict [(S ''type'', PStr (S ''event'')),
        (S ''raw'', PStr (take 200 (py_str multiline_env
                      (PDict [(S ''data'', PObj (S ''ndarray'') [] (S ''[[1] [2]]''))]))))]))"
  by (simp add: json_dumps_def serialize_payload_for_sse_def safe_payload_def multiline_env_def
        replace_char_def S_def)

subsection \<open>The formatter\<close>

text \<open>
  C2 (the code at the failing input).  An event whose \<open>name\<close> is a truthy value that is
  not a string makes the first statement of the \<open>try\<close> block raise; the handler builds
  the error payload, and the \<open>print\<close> after it raises \<open>UnboundLocalError\<close>, which leaves
  \<open>format_event_for_ui\<close>.
\<close>

theorem format_event_nonstring_name_raises:
  "format_event_for_ui E [(S ''name'', PInt 5), (S ''event'', PStr (S ''on_chain_start''))] initial_state =
     Inl (UnboundLocalError
            (S ''cannot access local variable '' @ [39] @ S ''ev_type'' @ [39]
             @ S '' where it is not associated with a value''))"
  by (simp add: format_event_for_ui_def dget_def dget_default_def py_or_def)

subsection \<open>Routing after the history node\<close>

text \<open>
  C10.  When the query for the session's temporary table returns a row with a value,
  \<open>route_after_history\<close> answers \<open>has_doc\<close> whatever the document URL is, and the
  graph goes from the history node to the policy retriever; when the query raises, the
  answer is the one for an absent table: \<open>with_doc\<close> with a URL, else \<open>no_doc\<close>.
\<close>

theorem temp_store_takes_precedence:
  "(truthy (dget state (S ''safe_session_id'')) \<and>
    regclass_after_history W (temp_table E (dget state (S ''safe_session_id''))) = Inr (PTuple [regclass]) \<and>
    truthy regclass \<longrightarrow>
      route_after_history E (regclass_after_history W) state = S ''has_doc'' \<and>
      next_node E W History state = Goto Policy_retriever) \<and>
   (regclass_after_history W (temp_table E (dget state (S ''safe_session_id''))) = Inl e \<longrightarrow>
      route_after_history E (regclass_after_history W) state =
        (if truthy (dget state (S ''document_url'')) then S ''with_doc'' else S ''no_doc''))"
  by (auto simp: route_after_history_def has_temp_def Let_def conditional_def after_history_targets_def)

theorem temp_store_takes_precedence_witness:
  "truthy (dget state_with_url (S ''safe_session_id'')) \<and>
   truthy (dget state_with_url (S ''document_url'')) \<and>
   regclass_after_history stored_world (temp_table ascii_env (dget state_with_url (S ''safe_session_id'')))
     = Inr (PTuple [PStr (S ''temp_documents_s1'')]) \<and>
   truthy (PStr (S ''temp_documents_s1'')) \<and>
   route_after_history ascii_env (regclass_after_history stored_world) state_with_url = S ''has_doc'' \<and>
   next_node ascii_env stored_world History state_with_url = Goto Policy_retriever \<and>
   regclass_after_history failing_db_world (temp_table ascii_env (dget state_with_url (S ''safe_session_id'')))
     = Inl (RuntimeError (S ''connection refused'')) \<and>
   route_after_history ascii_env (regclass_after_history failing_db_world) state_with_url = S ''with_doc''"
proof -
  have sid: "dget state_with_url (S ''safe_session_id'') = PStr (S ''s1'')"
    and url: "truthy (dget state_with_url (S ''document_url''))"
    by (simp_all add: state_with_url_def dget_def dget_default_def)
  have tab: "temp_table ascii_env (PStr (S ''s1'')) = S ''public.temp_documents_s1''"
    by (simp add: temp_table_def S_def)
  have a: "regclass_after_history stored_world (temp_table ascii_env (dget state_with_url (S ''safe_session_id'')))
     = Inr (PTuple [PStr (S ''temp_documents_s1'')])"
    unfolding sid tab by (simp add: stored_world_def)
  have b: "regclass_after_history failing_db_world (temp_table ascii_env (dget state_with_url (S ''safe_session_id'')))
     = Inl (RuntimeError (S ''connection refused''))"
    by (simp add: failing_db_world_def)
  show ?thesis
    using temp_store_takes_precedence [of state_with_url stored_world ascii_env
        "PStr (S ''temp_documents_s1'')" "RuntimeError []"]
      temp_store_takes_precedence [of state_with_url failing_db_world ascii_env
        PNone "RuntimeError (S ''connection refused'')"]
      a b url
    by (auto simp: sid)
qed

subsection \<open>The final payload\<close>







subsection \<open>The producer\<close>

lemma map_of_dict_set: "map_of (dict_set d k v) k' = (if k' = k then Some v else map_of d k')"
  by (induction d) auto

lemma map_of_foldl_dict_set:
  "k \<notin> fst ` set kvs \<Longrightarrow> map_of (foldl (\<lambda>d (k, v). dict_set d k v) d kvs) k = map_of d k"
  by (induction kvs arbitrary: d) (auto simp: map_of_dict_set)

lemma build_stage_payload_get:
  assumes "k \<notin> fst ` set extra"
  shows "map_of (build_stage_payload n m extra) k =
           map_of [(S ''type'', PStr (S ''stage'')), (S ''node'', PStr n), (S ''message'', PStr m)] k"
  unfolding build_stage_payload_def
  by (rule map_of_foldl_dict_set) (use assms in auto)

lemma stage_type [simp]:
  "S ''type'' \<notin> fst ` set extra \<Longrightarrow> dget (build_stage_payload n m extra) (S ''type'') = PStr (S ''stage'')"
  by (simp add: dget_def dget_default_def build_stage_payload_get)

lemma error_type [simp]: "dget (error_payload e) (S ''type'') = PStr (S ''error'')"
  by (simp add: error_payload_def dget_def dget_default_def)

lemma format_input_types:
  "format_input E ev out st = Inr ps \<Longrightarrow> \<forall>p\<in>set ps. dget p (S ''type'') \<in> ui_types"
  by (auto simp: format_input_def ui_types_def Let_def split: if_splits sum.splits)

lemma format_doc_download_types:
  "format_doc_download E ev out snap st = Inr ps \<Longrightarrow> \<forall>p\<in>set ps. dget p (S ''type'') \<in> ui_types"
  by (auto simp: format_doc_download_def ui_types_def Let_def split: if_splits sum.splits bool.splits)

lemma format_output_types:
  "format_output E nm out data = Inr ps \<Longrightarrow> \<forall>p\<in>set ps. dget p (S ''type'') \<in> ui_types"
  by (auto simp: format_output_def ui_types_def Let_def dget_def dget_default_def split: if_splits)

lemma format_simple_types:
  "p \<in> set (format_history out snap) \<Longrightarrow> dget p (S ''type'') \<in> ui_types"
  "p \<in> set (format_doc_process ev) \<Longrightarrow> dget p (S ''type'') \<in> ui_types"
  "p \<in> set (format_retriever E n f noun out snap) \<Longrightarrow> dget p (S ''type'') \<in> ui_types"
  "p \<in> set (format_context_combine E out snap) \<Longrightarrow> dget p (S ''type'') \<in> ui_types"
  by (auto simp: format_history_def format_doc_process_def format_retriever_def
        format_context_combine_def ui_types_def Let_def split: if_splits)

lemma literal_types:
  "dget [(S ''type'', PStr (S ''llm_stream'')), (S ''node'', n), (S ''content'', c)] (S ''type'') \<in> ui_types"
  "dget [(S ''type'', PStr (S ''llm_final'')), (S ''node'', n), (S ''content'', c)] (S ''type'') \<in> ui_types"
  "dget (build_stage_payload nm m []) (S ''type'') \<in> ui_types"
  by (simp_all add: ui_types_def dget_def dget_default_def build_stage_payload_def)

lemma stage_in_ui_types [simp]: "PStr (S ''stage'') \<in> ui_types"
  by (simp add: ui_types_def)

lemma format_dispatch_types:
  assumes "format_dispatch E nm ev data st = Inr ps" and "p \<in> set ps"
  shows "dget p (S ''type'') \<in> ui_types"
  using assms unfolding format_dispatch_def Let_def
  by (auto split: if_splits sum.splits
       dest: format_input_types format_doc_download_types format_output_types
       intro: format_simple_types literal_types)

lemma format_event_types:
  assumes "format_event_for_ui E event st = Inr ps" and "p \<in> set ps"
  shows "dget p (S ''type'') \<in> ui_types"
  using assms unfolding format_event_for_ui_def Let_def
  by (auto split: pyval.splits sum.splits dest: format_dispatch_types simp: ui_types_def)


lemma ui_types_not_end: "v \<in> ui_types \<Longrightarrow> v \<noteq> PStr (S ''end'')"
  by (auto simp: ui_types_def)

lemma serialize_frame_type:
  assumes "dget payload (S ''type'') \<noteq> PStr (S ''end'')"
  shows "\<exists>f. (case serialize_payload_for_sse E payload of
                 Inr sse_line \<Rightarrow> sse_line
               | Inl e \<Rightarrow> Data (safe_payload E payload)) = f \<and> frame_type f \<noteq> PStr (S ''end'')"
  using assms
  by (auto simp: serialize_payload_for_sse_def json_dumps_def safe_payload_def frame_type_def
        dget_def dget_default_def Let_def)

lemma put_payloads_frames:
  assumes "\<forall>p\<in>set payloads. dget p (S ''type'') \<noteq> PStr (S ''end'')"
  shows "\<exists>fs. put_payloads E payloads q = q @ map Some fs \<and>
              (\<forall>f\<in>set fs. frame_type f \<noteq> PStr (S ''end''))"
  using assms
proof (induction payloads arbitrary: q)
  case Nil
  show ?case by (rule exI [of _ "[]"]) simp
next
  case (Cons p ps)
  let ?f = "case serialize_payload_for_sse E p of
              Inr sse_line \<Rightarrow> sse_line | Inl e \<Rightarrow> Data (safe_payload E p)"
  have step: "put_payloads E (p # ps) q = put_payloads E ps (q @ [Some ?f])"
    by (cases "serialize_payload_for_sse E p") simp_all
  have f: "frame_type ?f \<noteq> PStr (S ''end'')"
    using serialize_frame_type [of p E] Cons.prems by simp
  from Cons.IH [of "q @ [Some ?f]"] Cons.prems
  obtain fs where fs: "put_payloads E ps (q @ [Some ?f]) = (q @ [Some ?f]) @ map Some fs"
    and ok: "\<forall>f\<in>set fs. frame_type f \<noteq> PStr (S ''end'')"
    by auto
  show ?case
    by (rule exI [of _ "?f # fs"]) (use step fs ok f in simp)
qed

lemma producer_loop_frames:
  "\<exists>fs. fst (producer_loop E st events fin q) = q @ map Some fs \<and>
        (\<forall>f\<in>set fs. frame_type f \<noteq> PStr (S ''end''))"
proof (induction events arbitrary: q)
  case Nil
  show ?case by (rule exI [of _ "[]"]) simp
next
  case (Cons ev evs)
  show ?case
  proof (cases "format_event_for_ui E ev st")
    case (Inl e)
    then show ?thesis by (intro exI [of _ "[]"]) simp
  next
    case (Inr payloads)
    have "\<forall>p\<in>set payloads. dget p (S ''type'') \<noteq> PStr (S ''end'')"
      using format_event_types [OF Inr] ui_types_not_end by blast
    from put_payloads_frames [OF this, of E q]
    obtain fs where fs: "put_payloads E payloads q = q @ map Some fs"
      and ok: "\<forall>f\<in>set fs. frame_type f \<noteq> PStr (S ''end'')"
      by auto
    from Cons.IH [of "q @ map Some fs"]
    obtain gs where gs: "fst (producer_loop E st evs fin (q @ map Some fs)) = (q @ map Some fs) @ map Some gs"
      and ok': "\<forall>f\<in>set gs. frame_type f \<noteq> PStr (S ''end'')"
      by auto
    show ?thesis
      by (rule exI [of _ "fs @ gs"]) (use Inr fs gs ok ok' in auto)
  qed
qed

lemma producer_error_of_stream:
  assumes "\<forall>ev\<in>set events. \<exists>ps. format_event_for_ui E ev st = Inr ps"
  shows "snd (producer_loop E st events fin q) = (case fin of Completed \<Rightarrow> None | Raised e \<Rightarrow> Some e)"
  using assms by (induction events arbitrary: q) auto

text \<open>
  C1.  Whatever the event stream does, the queue that \<open>async_producer\<close> leaves is a
  sequence of frames none of which has type \<open>end\<close>, then the \<open>end\<close> frame, then the
  close sentinel \<open>None\<close>, so the consumer receives those frames and exactly one
  \<open>end\<close> frame, last.  When an exception left the \<open>try\<close> block (the internal
  error), the frame right before the \<open>end\<close> frame is the \<open>error\<close> frame of that
  exception: its type is \<open>error\<close> and its \<open>error\<close> field is the text of the
  exception.  An exception raised by the stream is such an error.
\<close>

theorem producer_ends_once:
  "\<exists>frames. async_producer E stream initial_state = map Some frames @ [Some end_frame, None] \<and>
      (\<forall>f\<in>set frames. frame_type f \<noteq> PStr (S ''end'')) \<and>
      frame_type end_frame = PStr (S ''end'') \<and>
      consume (async_producer E stream initial_state) = frames @ [end_frame] \<and>
      (\<forall>e. producer_error E stream initial_state = Some e \<longrightarrow>
           frames \<noteq> [] \<and> frame_type (last frames) = PStr (S ''error'') \<and>
           last frames =
             Data (PDict [(S ''type'', PStr (S ''error'')), (S ''error'', PStr (exc_str e))])) \<and>
      (\<forall>e. snd stream = Raised e \<and>
           (\<forall>ev\<in>set (fst stream). \<exists>ps. format_event_for_ui E ev initial_state = Inr ps) \<longrightarrow>
           producer_error E stream initial_state = Some e)"
proof -
  obtain q err where loop: "producer_loop E initial_state (fst stream) (snd stream) [] = (q, err)"
    by (cases "producer_loop E initial_state (fst stream) (snd stream) []")
  from producer_loop_frames [of E initial_state "fst stream" "snd stream" "[]"] loop
  obtain fs where q: "q = map Some fs" and ok: "\<forall>f\<in>set fs. frame_type f \<noteq> PStr (S ''end'')"
    by auto
  have cons: "consume (map Some xs @ [Some end_frame, None]) = xs @ [end_frame]" for xs
    by (induction xs) auto
  have et: "frame_type end_frame = PStr (S ''end'')"
    by (simp add: end_frame_def frame_type_def dget_def dget_default_def)
  have errt: "frame_type (error_frame e) = PStr (S ''error'')" for e
    by (simp add: error_frame_def frame_type_def)
  have errn: "frame_type (error_frame e) \<noteq> PStr (S ''end'')" for e
    unfolding errt by simp
  have errv: "error_frame e =
      Data (PDict [(S ''type'', PStr (S ''error'')), (S ''error'', PStr (exc_str e))])" for e
    by (simp add: error_frame_def error_payload_def)
  have strm: "\<forall>e. snd stream = Raised e \<and>
           (\<forall>ev\<in>set (fst stream). \<exists>ps. format_event_for_ui E ev initial_state = Inr ps) \<longrightarrow>
           producer_error E stream initial_state = Some e"
    using producer_error_of_stream [of "fst stream" E initial_state "snd stream" "[]"]
    by (auto simp: producer_error_def)
  show ?thesis
  proof (cases err)
    case None
    have "async_producer E stream initial_state = map Some fs @ [Some end_frame, None]"
      by (simp add: async_producer_def loop None q)
    then show ?thesis
      using ok et cons [of fs] strm loop None
      by (intro exI [of _ fs]) (simp add: producer_error_def)
  next
    case (Some e)
    have "async_producer E stream initial_state = map Some (fs @ [error_frame e]) @ [Some end_frame, None]"
      by (simp add: async_producer_def loop Some q)
    moreover have "frame_type (last (fs @ [error_frame e])) = PStr (S ''error'')"
      by (simp add: errt)
    moreover have "last (fs @ [error_frame e]) =
        Data (PDict [(S ''type'', PStr (S ''error'')), (S ''error'', PStr (exc_str e))])"
      by (simp add: errv)
    moreover have "\<forall>f\<in>set (fs @ [error_frame e]). frame_type f \<noteq> PStr (S ''end'')"
      using ok errn by simp
    ultimately show ?thesis
      using et cons [of "fs @ [error_frame e]"] strm loop Some
      by (intro exI [of _ "fs @ [error_frame e]"]) (simp add: producer_error_def)
  qed
qed

theorem producer_ends_once_witness:
  "producer_error ascii_env ([], Raised (RuntimeError (S ''boom''))) [] = Some (RuntimeError (S ''boom'')) \<and>
   async_producer ascii_env ([], Raised (RuntimeError (S ''boom''))) []
     = [Some (Data (PDict [(S ''type'', PStr (S ''error'')), (S ''error'', PStr (S ''boom''))])),
        Some (Data (PDict [(S ''type'', PStr (S ''end''))])), None] \<and>
   frame_type (Data (PDict [(S ''type'', PStr (S ''error'')), (S ''error'', PStr (S ''boom''))]))
     = PStr (S ''error'') \<and>
   frame_type end_frame = PStr (S ''end'') \<and>
   consume (async_producer ascii_env ([], Raised (RuntimeError (S ''boom''))) [])
     = [Data (PDict [(S ''type'', PStr (S ''error'')), (S ''error'', PStr (S ''boom''))]),
        Data (PDict [(S ''type'', PStr (S ''end''))])]"
proof -
  let ?err = "Data (PDict [(S ''type'', PStr (S ''error'')), (S ''error'', PStr (S ''boom''))])"
  have a: "producer_error ascii_env ([], Raised (RuntimeError (S ''boom''))) []
             = Some (RuntimeError (S ''boom''))"
    by (simp add: producer_error_def)
  have x: "exc_str (RuntimeError (S ''boom'')) = S ''boom''"
    by simp
  have en: "end_frame = Data (PDict [(S ''type'', PStr (S ''end''))])"
    by (simp add: end_frame_def)
  from producer_ends_once [of ascii_env "([], Raised (RuntimeError (S ''boom'')))" "[]"]
  obtain frames where
    eq: "async_producer ascii_env ([], Raised (RuntimeError (S ''boom''))) []
        = map Some frames @ [Some end_frame, None]"
    and et: "frame_type end_frame = PStr (S ''end'')"
    and co: "consume (async_producer ascii_env ([], Raised (RuntimeError (S ''boom''))) [])
               = frames @ [end_frame]"
    and er: "\<forall>e. producer_error ascii_env ([], Raised (RuntimeError (S ''boom''))) [] = Some e \<longrightarrow>
           frames \<noteq> [] \<and> frame_type (last frames) = PStr (S ''error'') \<and>
           last frames =
             Data (PDict [(S ''type'', PStr (S ''error'')), (S ''error'', PStr (exc_str e))])"
    by blast
  from er a x have ne: "frames \<noteq> []" and ty: "frame_type (last frames) = PStr (S ''error'')"
    and la: "last frames = ?err"
    by auto
  have len: "length (async_producer ascii_env ([], Raised (RuntimeError (S ''boom''))) []) = 3"
    by (simp add: async_producer_def)
  with eq have "length frames = 1"
    by simp
  with ne la have fr: "frames = [?err]"
    by (cases frames) auto
  show ?thesis
    using a eq et co ty unfolding fr en by simp
qed

subsection \<open>Validation failures\<close>

lemma dget_dict_set: "dget (dict_set d k v) k' = (if k' = k then v else dget d k')"
  by (simp add: dget_def dget_default_def map_of_dict_set)

lemma merge_single: "merge state [(k, v)] = dict_set state k v"
  by (simp add: merge_def)

lemma run_from_raises:
  "node_fn W n state = Inl e \<Longrightarrow> run_from E W n state = ([Start n state], Raised e)"
  by (simp add: run_from.simps)









subsection \<open>Runs without a document\<close>

lemma next_rank: "next_node E W n state = Goto n' \<Longrightarrow> rank n < rank n'"
  by (cases n)
    (auto simp: conditional_def after_history_targets_def after_policy_targets_def
       route_after_history_def route_after_policy_def Let_def split: if_splits)

lemma run_from_rank:
  "raw \<in> set (fst (run_from E W n state)) \<Longrightarrow> rank n \<le> rank (raw_node raw)"
proof (induction E W n state rule: run_from.induct)
  case (1 E W n state)
  show ?case
  proof (cases "node_fn W n state")
    case (Inl e)
    with "1.prems" show ?thesis
      by (simp add: run_from.simps [of E W n state])
  next
    case (Inr update)
    show ?thesis
    proof (cases "next_node E W n (merge state update)")
      case (Goto n')
      obtain events fin where rest: "run_from E W n' (merge state update) = (events, fin)"
        by (cases "run_from E W n' (merge state update)")
      from "1.prems" Inr Goto rest
      have "raw = Start n state \<or> raw = End n update \<or> raw \<in> set events"
        by (simp add: run_from.simps [of E W n state])
      moreover have "rank n \<le> rank (raw_node raw)" if "raw \<in> set events"
        using "1.IH" [OF Inr Goto] that rest next_rank [OF Goto] by simp
      ultimately show ?thesis by auto
    next
      case END
      with "1.prems" Inr show ?thesis
        by (auto simp: run_from.simps [of E W n state])
    next
      case (Undeclared label)
      with "1.prems" Inr show ?thesis
        by (auto simp: run_from.simps [of E W n state])
    qed
  qed
qed

lemma started_raw_node: "started raw = Some n \<Longrightarrow> raw_node raw = n"
  by (cases raw) auto


lemma input_node_ok:
  assumes "input_node state = Inr update"
  shows "\<exists>s. s \<noteq> [] \<and> map_of state (S ''session_id'') = Some (PStr s) \<and>
             update = [(S ''safe_session_id'', PStr (replace_char 45 [95] s))]"
  using assms
  by (auto simp: input_node_def dget_def dget_default_def split: if_splits pyval.splits option.splits)

lemma route_no_doc:
  assumes "\<not> truthy (dget state (S ''document_url''))"
    and "\<not> has_temp E (regclass_after_history W) (dget state (S ''safe_session_id''))"
  shows "route_after_history E (regclass_after_history W) state = S ''no_doc''"
    and "next_node E W History state = Goto Policy_retriever"
  using assms
  by (simp_all add: route_after_history_def Let_def conditional_def after_history_targets_def)

lemma run_without_document:
  assumes nourl: "\<not> truthy (dget st (S ''document_url''))"
    and notemp: "\<And>s. dget st (S ''session_id'') = PStr s \<Longrightarrow>
        \<not> has_temp E (regclass_after_history W) (PStr (replace_char 45 [95] s))"
    and raw: "raw \<in> set (fst (run_from E W Input st))"
  shows "raw_node raw \<notin> {Doc_download, Doc_process}"
proof (cases "input_node st")
  case (Inl e)
  then have "run_from E W Input st = ([Start Input st], Raised e)"
    by (intro run_from_raises) (simp add: node_fn_def)
  with raw show ?thesis by auto
next
  case (Inr update)
  from input_node_ok [OF Inr] obtain s where s: "s \<noteq> []"
    and sid: "map_of st (S ''session_id'') = Some (PStr s)"
    and upd: "update = [(S ''safe_session_id'', PStr (replace_char 45 [95] s))]"
    by blast
  let ?sid = "PStr (replace_char 45 [95] s)"
  let ?st1 = "dict_set st (S ''safe_session_id'') ?sid"
  have m1: "merge st update = ?st1"
    by (simp add: upd merge_single)
  show ?thesis
  proof (cases "get_history W ?st1")
    case (Inl e)
    have "node_fn W History ?st1 = Inl e"
      by (simp add: node_fn_def session_history_node_def map_of_dict_set sid Inl)
    then have r2: "run_from E W History ?st1 = ([Start History ?st1], Raised e)"
      by (rule run_from_raises)
    have r1: "run_from E W Input st =
        ([Start Input st, End Input update, Start History ?st1], Raised e)"
      by (simp add: run_from.simps [of E W Input st] node_fn_def Inr m1 r2)
    with raw show ?thesis by auto
  next
    case (Inr h)
    let ?st2 = "dict_set ?st1 (S ''history'') h"
    have hist: "node_fn W History ?st1 = Inr [(S ''history'', h)]"
      by (simp add: node_fn_def session_history_node_def map_of_dict_set sid Inr)
    have m2: "merge ?st1 [(S ''history'', h)] = ?st2"
      by (simp add: merge_single)
    have "dget st (S ''session_id'') = PStr s"
      by (simp add: dget_def dget_default_def sid)
    from notemp [OF this]
    have nt: "\<not> has_temp E (regclass_after_history W) (dget ?st2 (S ''safe_session_id''))"
      by (simp add: dget_dict_set)
    have nu: "\<not> truthy (dget ?st2 (S ''document_url''))"
      using nourl by (simp add: dget_dict_set)
    have nxt: "next_node E W History ?st2 = Goto Policy_retriever"
      by (rule route_no_doc(2) [OF nu nt])
    obtain events fin where rest: "run_from E W Policy_retriever ?st2 = (events, fin)"
      by (cases "run_from E W Policy_retriever ?st2")
    have r2: "run_from E W History ?st1 =
        (Start History ?st1 # End History [(S ''history'', h)] # events, fin)"
      by (simp add: run_from.simps [of E W History ?st1] hist m2 nxt rest del: next_node.simps)
    have r1: "run_from E W Input st =
        (Start Input st # End Input update # Start History ?st1 # End History [(S ''history'', h)] # events, fin)"
      by (simp add: run_from.simps [of E W Input st] node_fn_def \<open>input_node st = Inr update\<close> m1 r2)
    have "4 \<le> rank (raw_node x)" if "x \<in> set events" for x
      using run_from_rank [of x E W Policy_retriever ?st2] that rest by simp
    then have "raw_node x \<notin> {Doc_download, Doc_process}" if "x \<in> set events" for x
      using that by fastforce
    with raw r1 show ?thesis by auto
  qed
qed


lemma stage_node:
  "S ''node'' \<notin> fst ` set extra \<Longrightarrow> dget (build_stage_payload n m extra) (S ''node'') = PStr n"
  by (simp add: dget_def dget_default_def build_stage_payload_get)

lemma error_node: "dget (error_payload e) (S ''node'') = PNone"
  by (simp add: error_payload_def dget_def dget_default_def)

lemma format_input_node:
  "format_input E ev out st = Inr ps \<Longrightarrow> p \<in> set ps \<Longrightarrow> dget p (S ''node'') = PStr (S ''input'')"
  by (auto simp: format_input_def stage_node Let_def split: if_splits sum.splits)

lemma format_doc_download_node:
  "format_doc_download E ev out snap st = Inr ps \<Longrightarrow> p \<in> set ps \<Longrightarrow>
     dget p (S ''node'') = PStr (S ''doc_download'')"
  by (auto simp: format_doc_download_def stage_node Let_def split: if_splits sum.splits bool.splits)

lemma format_output_node:
  "format_output E nm out data = Inr ps \<Longrightarrow> p \<in> set ps \<Longrightarrow> dget p (S ''node'') = PStr nm"
  by (auto simp: format_output_def Let_def dget_def dget_default_def split: if_splits)

lemma format_simple_node:
  "p \<in> set (format_history out snap) \<Longrightarrow> dget p (S ''node'') = PStr (S ''history'')"
  "p \<in> set (format_doc_process ev) \<Longrightarrow> dget p (S ''node'') = PStr (S ''doc_process'')"
  "p \<in> set (format_retriever E n f noun out snap) \<Longrightarrow> dget p (S ''node'') = PStr (S n)"
  "p \<in> set (format_context_combine E out snap) \<Longrightarrow> dget p (S ''node'') = PStr (S ''context_combine'')"
  by (auto simp: format_history_def format_doc_process_def format_retriever_def
        format_context_combine_def stage_node Let_def split: if_splits)

lemma literal_node:
  "dget [(S ''type'', t), (S ''node'', n), (S ''content'', c)] (S ''node'') = n"
  by (simp add: dget_def dget_default_def)

lemma format_dispatch_doc_node:
  assumes "format_dispatch E nm ev data st = Inr ps" and "p \<in> set ps"
    and "dget p (S ''node'') \<in> {PStr (S ''doc_download''), PStr (S ''doc_process'')}"
  shows "nm \<in> {S ''doc_download'', S ''document_download_node'',
               S ''doc_process'', S ''document_processing_node''}"
  using assms unfolding format_dispatch_def Let_def
  by (auto split: if_splits sum.splits simp: stage_node literal_node
       dest: format_input_node format_output_node format_simple_node)


lemma sent_frame_node:
  "frame_node (case serialize_payload_for_sse E p of
                 Inr sse_line \<Rightarrow> sse_line | Inl e \<Rightarrow> Data (safe_payload E p))
     \<in> {dget p (S ''node''), PNone}"
  by (auto simp: serialize_payload_for_sse_def json_dumps_def safe_payload_def frame_node_def
        dget_def dget_default_def Let_def)

lemma put_payloads_nodes:
  assumes "\<forall>p\<in>set payloads. dget p (S ''node'') \<notin> D" and "PNone \<notin> D"
  shows "\<exists>fs. put_payloads E payloads q = q @ map Some fs \<and> (\<forall>f\<in>set fs. frame_node f \<notin> D)"
  using assms(1)
proof (induction payloads arbitrary: q)
  case Nil
  show ?case by (rule exI [of _ "[]"]) simp
next
  case (Cons p ps)
  let ?f = "case serialize_payload_for_sse E p of
              Inr sse_line \<Rightarrow> sse_line | Inl e \<Rightarrow> Data (safe_payload E p)"
  have step: "put_payloads E (p # ps) q = put_payloads E ps (q @ [Some ?f])"
    by (cases "serialize_payload_for_sse E p") simp_all
  have f: "frame_node ?f \<notin> D"
    using sent_frame_node [of E p] Cons.prems assms(2) by auto
  from Cons.IH [of "q @ [Some ?f]"] Cons.prems
  obtain fs where fs: "put_payloads E ps (q @ [Some ?f]) = (q @ [Some ?f]) @ map Some fs"
    and ok: "\<forall>f\<in>set fs. frame_node f \<notin> D"
    by auto
  show ?case
    by (rule exI [of _ "?f # fs"]) (use step fs ok f in simp)
qed

lemma producer_loop_nodes:
  assumes "\<forall>ev\<in>set events. \<forall>ps. format_event_for_ui E ev st = Inr ps \<longrightarrow>
             (\<forall>p\<in>set ps. dget p (S ''node'') \<notin> D)"
    and "PNone \<notin> D"
  shows "\<exists>fs. fst (producer_loop E st events fin q) = q @ map Some fs \<and>
              (\<forall>f\<in>set fs. frame_node f \<notin> D)"
  using assms(1)
proof (induction events arbitrary: q)
  case Nil
  show ?case by (rule exI [of _ "[]"]) simp
next
  case (Cons ev evs)
  show ?case
  proof (cases "format_event_for_ui E ev st")
    case (Inl e)
    then show ?thesis by (intro exI [of _ "[]"]) simp
  next
    case (Inr payloads)
    have "\<forall>p\<in>set payloads. dget p (S ''node'') \<notin> D"
      using Cons.prems Inr by simp
    from put_payloads_nodes [OF this assms(2), of E q]
    obtain fs where fs: "put_payloads E payloads q = q @ map Some fs"
      and ok: "\<forall>f\<in>set fs. frame_node f \<notin> D"
      by auto
    from Cons.IH [of "q @ map Some fs"] Cons.prems
    obtain gs where gs: "fst (producer_loop E st evs fin (q @ map Some fs)) = (q @ map Some fs) @ map Some gs"
      and ok': "\<forall>f\<in>set gs. frame_node f \<notin> D"
      by auto
    show ?thesis
      by (rule exI [of _ "fs @ gs"]) (use Inr fs gs ok ok' in auto)
  qed
qed

lemma consumed_nodes:
  assumes "\<forall>ev\<in>set (fst stream). \<forall>ps. format_event_for_ui E ev st = Inr ps \<longrightarrow>
             (\<forall>p\<in>set ps. dget p (S ''node'') \<notin> D)"
    and "PNone \<notin> D"
  shows "\<forall>f\<in>set (consume (async_producer E stream st)). frame_node f \<notin> D"
proof -
  obtain q err where loop: "producer_loop E st (fst stream) (snd stream) [] = (q, err)"
    by (cases "producer_loop E st (fst stream) (snd stream) []")
  from producer_loop_nodes [OF assms, of "snd stream" "[]"] loop
  obtain fs where q: "q = map Some fs" and ok: "\<forall>f\<in>set fs. frame_node f \<notin> D"
    by auto
  have cons: "consume (map Some xs @ [Some end_frame, None]) = xs @ [end_frame]" for xs
    by (induction xs) auto
  have e1: "frame_node end_frame = PNone"
    by (simp add: end_frame_def frame_node_def dget_def dget_default_def)
  have e2: "frame_node (error_frame e) = PNone" for e
    by (simp add: error_frame_def frame_node_def error_node)
  show ?thesis
  proof (cases err)
    case None
    have "async_producer E stream st = map Some fs @ [Some end_frame, None]"
      by (simp add: async_producer_def loop None q)
    then show ?thesis
      using ok e1 assms(2) cons [of fs] by auto
  next
    case (Some e)
    have "async_producer E stream st = map Some (fs @ [error_frame e]) @ [Some end_frame, None]"
      by (simp add: async_producer_def loop Some q)
    then show ?thesis
      using ok e1 e2 [of e] assms(2) cons [of "fs @ [error_frame e]"] by auto
  qed
qed

lemma doc_node_names:
  "node_name n \<in> {S ''doc_download'', S ''document_download_node'',
                    S ''doc_process'', S ''document_processing_node''}
   \<Longrightarrow> n \<in> {Doc_download, Doc_process}"
  by (cases n) auto

lemma event_payload_node:
  assumes low: "py_lower E (node_name (raw_node raw)) = node_name (raw_node raw)"
    and n: "raw_node raw \<notin> {Doc_download, Doc_process}"
    and fmt: "format_event_for_ui E (to_event raw) st = Inr ps" and p: "p \<in> set ps"
  shows "dget p (S ''node'') \<notin> {PStr (S ''doc_download''), PStr (S ''doc_process'')}"
proof
  assume bad: "dget p (S ''node'') \<in> {PStr (S ''doc_download''), PStr (S ''doc_process'')}"
  obtain ev data where name: "dget (to_event raw) (S ''name'') = PStr (node_name (raw_node raw))"
    and ev: "dget (to_event raw) (S ''event'') = ev"
    and data: "py_or (dget (to_event raw) (S ''data'')) (PDict []) = data"
    by (cases raw) (simp_all add: dget_def dget_default_def)
  have nm: "py_or (dget (to_event raw) (S ''name'')) (PStr []) = PStr (node_name (raw_node raw))"
    by (simp add: name py_or_def)
  show False
  proof (cases "format_dispatch E (node_name (raw_node raw)) ev data st")
    case (Inl e)
    with fmt p have "p = error_payload e"
      by (auto simp: format_event_for_ui_def nm low ev data Let_def simp del: to_event.simps)
    with bad show False by (simp add: error_node)
  next
    case (Inr qs)
    with fmt have "ps = qs"
      by (auto simp: format_event_for_ui_def nm low ev data Let_def simp del: to_event.simps)
    with format_dispatch_doc_node [OF Inr _ bad] p
    have "node_name (raw_node raw) \<in> {S ''doc_download'', S ''document_download_node'',
                    S ''doc_process'', S ''document_processing_node''}"
      by simp
    from doc_node_names [OF this] n show False by simp
  qed
qed

text \<open>
  C7.  In a run of the company-policy graph from a state without a document URL, with
  no temporary table for its session when the history node has finished, the nodes
  \<open>doc_download\<close> and \<open>doc_process\<close> are not executed, and no frame that the
  consumer receives names either of them; \<open>route_after_history\<close> answers \<open>no_doc\<close> in
  such a state and the graph goes on with the policy retriever.  (\<open>str.lower\<close> leaves
  the node names, which are lower-case, as they are.)
\<close>

theorem no_document_skips_doc_nodes:
  assumes "\<forall>n. py_lower E (node_name n) = node_name n"
    and "\<not> truthy (dget st (S ''document_url''))"
    and "\<forall>s. dget st (S ''session_id'') = PStr s \<longrightarrow>
           \<not> has_temp E (regclass_after_history W) (PStr (replace_char 45 [95] s))"
  shows "Doc_download \<notin> set (executed E W st) \<and> Doc_process \<notin> set (executed E W st) \<and>
     (\<forall>f\<in>set (consume (async_producer E (astream_events E W st) st)).
        frame_node f \<notin> {PStr (S ''doc_download''), PStr (S ''doc_process'')}) \<and>
     (\<forall>fs. stream_frames E W st = Inr fs \<longrightarrow>
        (\<forall>f\<in>set fs. frame_node f \<notin> {PStr (S ''doc_download''), PStr (S ''doc_process'')})) \<and>
     (sliceable (dget_default st (S ''message'') (PStr [])) \<longrightarrow>
        stream_frames E W st = Inr (consume (async_producer E (astream_events E W st) st))) \<and>
     (\<forall>state. \<not> truthy (dget state (S ''document_url'')) \<and>
        \<not> has_temp E (regclass_after_history W) (dget state (S ''safe_session_id'')) \<longrightarrow>
        route_after_history E (regclass_after_history W) state = S ''no_doc'' \<and>
        next_node E W History state = Goto Policy_retriever)"
proof -
  have raws: "raw_node raw \<notin> {Doc_download, Doc_process}"
    if "raw \<in> set (fst (run_from E W Input st))" for raw
    using run_without_document [OF assms(2) _ that] assms(3) by blast
  have ex: "n \<notin> {Doc_download, Doc_process}" if "n \<in> set (executed E W st)" for n
  proof -
    from that obtain raw where "raw \<in> set (fst (run_from E W Input st))" "started raw = Some n"
      by (auto simp: executed_def List.map_filter_def)
    with raws [of raw] started_raw_node [of raw n] show ?thesis by simp
  qed
  have evs: "\<forall>ev\<in>set (fst (astream_events E W st)). \<forall>ps. format_event_for_ui E ev st = Inr ps \<longrightarrow>
       (\<forall>p\<in>set ps. dget p (S ''node'') \<notin> {PStr (S ''doc_download''), PStr (S ''doc_process'')})"
  proof (intro ballI allI impI)
    fix ev ps p
    assume ev: "ev \<in> set (fst (astream_events E W st))"
      and fmt: "format_event_for_ui E ev st = Inr ps" and p: "p \<in> set ps"
    from ev obtain raw where raw: "raw \<in> set (fst (run_from E W Input st))" and e: "ev = to_event raw"
      by (auto simp: astream_events_def split: prod.splits)
    show "dget p (S ''node'') \<notin> {PStr (S ''doc_download''), PStr (S ''doc_process'')}"
      using event_payload_node [OF _ raws [OF raw] fmt [unfolded e] p] assms(1) by blast
  qed
  have fr: "\<forall>f\<in>set (consume (async_producer E (astream_events E W st) st)).
        frame_node f \<notin> {PStr (S ''doc_download''), PStr (S ''doc_process'')}"
    by (rule consumed_nodes [OF evs]) simp
  have gen: "stream_frames E W st = Inr fs \<Longrightarrow>
      fs = consume (async_producer E (astream_events E W st) st)" for fs
    by (auto simp: stream_frames_def create_stream_generator_def Let_def split: if_splits)
  have ok: "sliceable (dget_default st (S ''message'') (PStr [])) \<Longrightarrow>
      stream_frames E W st = Inr (consume (async_producer E (astream_events E W st) st))"
    by (simp add: stream_frames_def create_stream_generator_def Let_def)
  show ?thesis
    using ex fr gen ok route_no_doc by blast
qed

theorem no_document_skips_doc_nodes_witness:
  "\<not> truthy (dget no_doc_state (S ''document_url'')) \<and>
   dget no_doc_state (S ''session_id'') = PStr (S ''a-b'') \<and>
   \<not> has_temp ascii_env (regclass_after_history quiet_world) (PStr (replace_char 45 [95] (S ''a-b''))) \<and>
   py_lower ascii_env (node_name Policy_retriever) = node_name Policy_retriever \<and>
   sliceable (dget_default no_doc_state (S ''message'') (PStr [])) \<and>
   Doc_download \<notin> set (executed ascii_env quiet_world no_doc_state) \<and>
   Doc_process \<notin> set (executed ascii_env quiet_world no_doc_state) \<and>
   executed ascii_env quiet_world no_doc_state =
     [Input, History, Policy_retriever, Context_combine, Llm, Session_update, Output] \<and>
   (\<exists>fs. stream_frames ascii_env quiet_world no_doc_state = Inr fs \<and>
      filter (\<lambda>f. frame_node f \<in> {PStr (S ''doc_download''), PStr (S ''doc_process'')}) fs = []) \<and>
   (\<exists>fs. stream_frames ascii_env quiet_world no_doc_state = Inr fs \<and>
      map frame_node fs =
        [PStr (S ''input''), PStr (S ''input''), PStr (S ''history''), PStr (S ''history''),
         PStr (S ''policy_retriever''), PStr (S ''policy_retriever''),
         PStr (S ''context_combine''), PStr (S ''context_combine''),
         PStr (S ''llm''), PStr (S ''llm''),
         PStr (S ''session_update''), PStr (S ''session_update''),
         PStr (S ''output''), PStr (S ''output''), PNone]) \<and>
   route_after_history ascii_env (regclass_after_history quiet_world) no_doc_state = S ''no_doc'' \<and>
   next_node ascii_env quiet_world History no_doc_state = Goto Policy_retriever"
proof -
  have low: "\<forall>n. py_lower ascii_env (node_name n) = node_name n"
  proof
    fix n show "py_lower ascii_env (node_name n) = node_name n"
      by (cases n) (simp_all add: ascii_env_def ascii_lower_def S_def)
  qed
  have url: "\<not> truthy (dget no_doc_state (S ''document_url''))"
    and sid: "dget no_doc_state (S ''session_id'') = PStr (S ''a-b'')"
    and safe: "dget no_doc_state (S ''safe_session_id'') = PNone"
    and msg: "sliceable (dget_default no_doc_state (S ''message'') (PStr []))"
    by (simp_all add: no_doc_state_def dget_def dget_default_def)
  have nt: "\<not> has_temp ascii_env (regclass_after_history quiet_world) v" for v
    by (simp add: has_temp_def quiet_world_def)
  have h3: "\<forall>s. dget no_doc_state (S ''session_id'') = PStr s \<longrightarrow>
           \<not> has_temp ascii_env (regclass_after_history quiet_world) (PStr (replace_char 45 [95] s))"
    using nt by blast
  have run: "executed ascii_env quiet_world no_doc_state =
     [Input, History, Policy_retriever, Context_combine, Llm, Session_update, Output]"
    by (simp add: executed_def run_from.simps node_fn_def input_node_def session_history_node_def
          no_doc_state_def quiet_world_def dget_def dget_default_def merge_def
          route_after_history_def route_after_policy_def has_temp_def conditional_def
          after_history_targets_def after_policy_targets_def List.map_filter_simps Let_def)
  from no_document_skips_doc_nodes [of ascii_env no_doc_state quiet_world, OF low url h3] msg
  have fr: "\<exists>fs. stream_frames ascii_env quiet_world no_doc_state = Inr fs \<and>
      filter (\<lambda>f. frame_node f \<in> {PStr (S ''doc_download''), PStr (S ''doc_process'')}) fs = []"
    unfolding filter_empty_conv by blast
  have nodes: "\<exists>fs. stream_frames ascii_env quiet_world no_doc_state = Inr fs \<and>
      map frame_node fs =
        [PStr (S ''input''), PStr (S ''input''), PStr (S ''history''), PStr (S ''history''),
         PStr (S ''policy_retriever''), PStr (S ''policy_retriever''),
         PStr (S ''context_combine''), PStr (S ''context_combine''),
         PStr (S ''llm''), PStr (S ''llm''),
         PStr (S ''session_update''), PStr (S ''session_update''),
         PStr (S ''output''), PStr (S ''output''), PNone]"
    by (simp add: stream_frames_def create_stream_generator_def astream_events_def async_producer_def
          run_from.simps node_fn_def input_node_def session_history_node_def
          no_doc_state_def quiet_world_def dget_def dget_default_def merge_def
          route_after_history_def route_after_policy_def has_temp_def conditional_def
          after_history_targets_def after_policy_targets_def Let_def replace_char_def S_def
          format_event_for_ui_def format_dispatch_def py_or_def ascii_env_def ascii_lower_def
          format_input_def format_history_def format_retriever_def format_context_combine_def
          format_output_def build_stage_payload_def safe_session_def truncate_text_def
          serialize_payload_for_sse_def json_dumps_def frame_node_def end_frame_def
          output_get_def output_or_state_def maybe_get_state_def count_or_0_def
          show_int_def digits.simps)
  show ?thesis
    using no_document_skips_doc_nodes [of ascii_env no_doc_state quiet_world, OF low url h3]
      url sid nt low run msg fr nodes
    by blast
qed

end
